theory Spec2Isabelle
  imports Main "HOL-Library.AList"
begin

section \<open>Python values, strings and exceptions\<close>

text \<open>
  A Python \<open>str\<close> is a sequence of Unicode code points, so a string is a list of
  natural numbers (the code points); \<open>len\<close> counts code points. A \<open>bytes\<close> object is a
  list of byte values. \<open>ustr\<close> writes an ASCII literal as such a string.
\<close>

type_synonym ustring = "nat list"

definition ustr :: "string \<Rightarrow> ustring" where
  "ustr s = map of_char s"

text \<open>
  The values an argument of the program can be: the program is dynamically typed, and the
  constructors of \<open>Phone\<close>, \<open>Name\<close> and \<open>Birthday\<close> decide by what the value supports.
\<close>

datatype pyval = PyNone | PyInt int | PyStr ustring | PyBytes "nat list"

text \<open>
  An exception is its class and its message. \<open>Literal\<close> is a message written in
  \<open>task.py\<close>; \<open>RecordNotFound\<close> is the f-string of \<open>AddressBook.delete\<close>, which
  formats the name; \<open>Library\<close> stands for a message produced by the interpreter or the
  standard library, whose text is not modelled.
\<close>

datatype exc = ValueError | AttributeError | TypeError

datatype message = Literal string | RecordNotFound pyval | Library

type_synonym error = "exc \<times> message"

subsection \<open>Unicode digits\<close>

text \<open>
  \<open>str.isdigit\<close> is true of a character whose Unicode property \<open>Numeric_Type\<close> is
  \<open>Decimal\<close> or \<open>Digit\<close>; the regular expression \<open>\d\<close> on a \<open>str\<close> and \<open>int()\<close>
  accept the characters of \<open>Numeric_Type = Decimal\<close> (category Nd). The two tables are
  those of the Unicode Character Database 14.0.0, as ranges of code points. Every range
  of decimal digits is a run of blocks of ten, in which the digits 0 to 9 follow each
  other.
\<close>

definition decimal_ranges :: "(nat \<times> nat) list" where
  "decimal_ranges =
    [(48, 57), (1632, 1641), (1776, 1785), (1984, 1993), (2406, 2415), (2534, 2543),
     (2662, 2671), (2790, 2799), (2918, 2927), (3046, 3055), (3174, 3183), (3302, 3311),
     (3430, 3439), (3558, 3567), (3664, 3673), (3792, 3801), (3872, 3881), (4160, 4169),
     (4240, 4249), (6112, 6121), (6160, 6169), (6470, 6479), (6608, 6617), (6784, 6793),
     (6800, 6809), (6992, 7001), (7088, 7097), (7232, 7241), (7248, 7257), (42528, 42537),
     (43216, 43225), (43264, 43273), (43472, 43481), (43504, 43513), (43600, 43609),
     (44016, 44025), (65296, 65305), (66720, 66729), (68912, 68921), (69734, 69743),
     (69872, 69881), (69942, 69951), (70096, 70105), (70384, 70393), (70736, 70745),
     (70864, 70873), (71248, 71257), (71360, 71369), (71472, 71481), (71904, 71913),
     (72016, 72025), (72784, 72793), (73040, 73049), (73120, 73129), (92768, 92777),
     (92864, 92873), (93008, 93017), (120782, 120831), (123200, 123209), (123632, 123641),
     (125264, 125273), (130032, 130041)]"

definition other_digit_ranges :: "(nat \<times> nat) list" where
  "other_digit_ranges =
    [(178, 179), (185, 185), (4969, 4977), (6618, 6618), (8304, 8304), (8308, 8313),
     (8320, 8329), (9312, 9320), (9332, 9340), (9352, 9360), (9450, 9450), (9461, 9469),
     (9471, 9471), (10102, 10110), (10112, 10120), (10122, 10130), (68160, 68163),
     (69216, 69224), (69714, 69722), (127232, 127242)]"

fun range_of :: "(nat \<times> nat) list \<Rightarrow> nat \<Rightarrow> (nat \<times> nat) option" where
  "range_of [] c = None"
| "range_of ((lo, hi) # rs) c = (if lo \<le> c \<and> c \<le> hi then Some (lo, hi) else range_of rs c)"

definition isdecimal_cp :: "nat \<Rightarrow> bool" where
  "isdecimal_cp c = (range_of decimal_ranges c \<noteq> None)"

definition isdigit_cp :: "nat \<Rightarrow> bool" where
  "isdigit_cp c = (isdecimal_cp c \<or> range_of other_digit_ranges c \<noteq> None)"

definition decimal_value :: "nat \<Rightarrow> int option" where
  "decimal_value c =
     (case range_of decimal_ranges c of
        None \<Rightarrow> None
      | Some (lo, hi) \<Rightarrow> Some (int ((c - lo) mod 10)))"

definition ascii_digit :: "nat \<Rightarrow> bool" where
  "ascii_digit c = (48 \<le> c \<and> c \<le> 57)"

subsection \<open>The built-in operations the constructors call\<close>

text \<open>
  \<open>value.isdigit()\<close>: on a \<open>str\<close>, all characters are digits and there is at least one;
  on \<open>bytes\<close>, all bytes are ASCII digits and there is at least one; \<open>None\<close> and an
  \<open>int\<close> have no such attribute.
\<close>

definition str_isdigit :: "ustring \<Rightarrow> bool" where
  "str_isdigit s = (s \<noteq> [] \<and> list_all isdigit_cp s)"

definition bytes_isdigit :: "nat list \<Rightarrow> bool" where
  "bytes_isdigit b = (b \<noteq> [] \<and> list_all ascii_digit b)"

fun py_isdigit :: "pyval \<Rightarrow> error + bool" where
  "py_isdigit (PyStr s) = Inr (str_isdigit s)"
| "py_isdigit (PyBytes b) = Inr (bytes_isdigit b)"
| "py_isdigit PyNone = Inl (AttributeError, Library)"
| "py_isdigit (PyInt i) = Inl (AttributeError, Library)"

fun py_len :: "pyval \<Rightarrow> error + nat" where
  "py_len (PyStr s) = Inr (length s)"
| "py_len (PyBytes b) = Inr (length b)"
| "py_len PyNone = Inl (TypeError, Library)"
| "py_len (PyInt i) = Inl (TypeError, Library)"

text \<open>Truth value of an object, as \<open>not value\<close> tests it.\<close>

fun truthy :: "pyval \<Rightarrow> bool" where
  "truthy PyNone = False"
| "truthy (PyInt i) = (i \<noteq> 0)"
| "truthy (PyStr s) = (s \<noteq> [])"
| "truthy (PyBytes b) = (b \<noteq> [])"

section \<open>Fields\<close>

text \<open>
  A \<open>Field\<close> object holds one attribute, \<open>value\<close>; a constructor that returns is modelled
  by the value it stores, one that raises by the exception.
\<close>

definition Name :: "pyval \<Rightarrow> error + pyval" where
  "Name v = (if \<not> truthy v then Inl (ValueError, Literal ''Name cannot be empty'') else Inr v)"

text \<open>
  \<open>not value.isdigit() or len(value) != 10\<close>: the test of the phone number, with the
  short circuit of \<open>or\<close>; it raises what \<open>isdigit\<close> or \<open>len\<close> raise.
\<close>

definition not_10_digits :: "pyval \<Rightarrow> error + bool" where
  "not_10_digits v =
     (case py_isdigit v of
        Inl e \<Rightarrow> Inl e
      | Inr d \<Rightarrow>
          if \<not> d then Inr True
          else (case py_len v of Inl e \<Rightarrow> Inl e | Inr n \<Rightarrow> Inr (n \<noteq> 10)))"

text \<open>\<open>Phone.__init__\<close>: the \<open>try\<close> catches an \<open>AttributeError\<close> only and raises its own.\<close>

definition Phone :: "pyval \<Rightarrow> error + pyval" where
  "Phone v =
     (case not_10_digits v of
        Inl e \<Rightarrow>
          if fst e = AttributeError
          then Inl (AttributeError, Literal ''Invalid format number. Use 10 digits'')
          else Inl e
      | Inr bad \<Rightarrow>
          if bad then Inl (ValueError, Literal ''Phone number must contain 10 digits'')
          else Inr v)"

section \<open>Calendar dates\<close>

text \<open>
  \<open>datetime.date\<close> of the standard library: the proleptic Gregorian calendar, with the
  day number (\<open>toordinal\<close>) that date subtraction and \<open>isoweekday\<close> are computed from.
  The constructor raises \<open>ValueError\<close> on fields out of range; \<open>replace(year=y)\<close> is
  the constructor on the new year and the old month and day.
\<close>

record date =
  year :: int
  month :: int
  day :: int

definition is_leap :: "int \<Rightarrow> bool" where
  "is_leap y = (y mod 4 = 0 \<and> (y mod 100 \<noteq> 0 \<or> y mod 400 = 0))"

definition days_before_year :: "int \<Rightarrow> int" where
  "days_before_year yr = (let y = yr - 1 in y * 365 + y div 4 - y div 100 + y div 400)"

definition DAYS_IN_MONTH :: "int list" where
  "DAYS_IN_MONTH = [-1, 31, 28, 31, 30, 31, 30, 31, 31, 30, 31, 30, 31]"

definition DAYS_BEFORE_MONTH :: "int list" where
  "DAYS_BEFORE_MONTH = [-1, 0, 31, 59, 90, 120, 151, 181, 212, 243, 273, 304, 334]"

definition days_in_month :: "int \<Rightarrow> int \<Rightarrow> int" where
  "days_in_month y m = (if m = 2 \<and> is_leap y then 29 else DAYS_IN_MONTH ! nat m)"

definition days_before_month :: "int \<Rightarrow> int \<Rightarrow> int" where
  "days_before_month y m = DAYS_BEFORE_MONTH ! nat m + (if m > 2 \<and> is_leap y then 1 else 0)"

definition ymd2ord :: "int \<Rightarrow> int \<Rightarrow> int \<Rightarrow> int" where
  "ymd2ord y m d = days_before_year y + days_before_month y m + d"

definition valid_ymd :: "int \<Rightarrow> int \<Rightarrow> int \<Rightarrow> bool" where
  "valid_ymd y m d =
     (1 \<le> y \<and> y \<le> 9999 \<and> 1 \<le> m \<and> m \<le> 12 \<and> 1 \<le> d \<and> d \<le> days_in_month y m)"

definition valid_date :: "date \<Rightarrow> bool" where
  "valid_date dt = valid_ymd (year dt) (month dt) (day dt)"

definition new_date :: "int \<Rightarrow> int \<Rightarrow> int \<Rightarrow> error + date" where
  "new_date y m d =
     (if \<not> (1 \<le> y \<and> y \<le> 9999) then Inl (ValueError, Library)
      else if \<not> (1 \<le> m \<and> m \<le> 12) then Inl (ValueError, Library)
      else if \<not> (1 \<le> d \<and> d \<le> days_in_month y m) then Inl (ValueError, Library)
      else Inr \<lparr>year = y, month = m, day = d\<rparr>)"

definition replace_year :: "date \<Rightarrow> int \<Rightarrow> error + date" where
  "replace_year dt y = new_date y (month dt) (day dt)"

definition toordinal :: "date \<Rightarrow> int" where
  "toordinal dt = ymd2ord (year dt) (month dt) (day dt)"

definition isoweekday :: "date \<Rightarrow> int" where
  "isoweekday dt = (let w = toordinal dt mod 7 in if w = 0 then 7 else w)"

subsection \<open>Formatting: \<open>strftime('%d.%m.%Y')\<close>\<close>

text \<open>
  \<open>%d\<close> and \<open>%m\<close> are the number in two digits, padded with a zero; \<open>%Y\<close> is the year
  in decimal as the C library of the platform prints it, here without padding (the
  padding of a year below 1000 differs between platforms).
\<close>

fun decimal :: "nat \<Rightarrow> ustring" where
  "decimal n = (if n < 10 then [48 + n] else decimal (n div 10) @ [48 + n mod 10])"

declare decimal.simps [simp del]

definition zero_pad2 :: "nat \<Rightarrow> ustring" where
  "zero_pad2 n = (if n < 10 then 48 # decimal n else decimal n)"

definition strftime :: "date \<Rightarrow> ustring" where
  "strftime dt =
     zero_pad2 (nat (day dt)) @ [46] @ zero_pad2 (nat (month dt)) @ [46] @ decimal (nat (year dt))"

subsection \<open>Parsing: \<open>strptime(value, '%d.%m.%Y')\<close>\<close>

text \<open>
  The library turns the format into the regular expression
  \<^verbatim>\<open>(?P<d>3[0-1]|[1-2]\d|0[1-9]|[1-9]| [1-9])\.(?P<m>1[0-2]|0[1-9]|[1-9])\.(?P<Y>\d\d\d\d)\<close>,
  matches it at the start of the string and raises \<open>ValueError\<close> when there is no match
  or when text remains after it. No group can match a dot, so the groups are the text
  before the first dot, the text between the first two dots, and the rest.
  \<open>re_d\<close>, \<open>re_m\<close> and \<open>re_Y\<close> are the three groups; \<open>\d\<close> is any Unicode decimal
  digit. The groups are converted with \<open>int()\<close>, and the date is built by the
  constructor, which raises \<open>ValueError\<close> on a date that does not exist. An argument
  that is not a \<open>str\<close> raises \<open>TypeError\<close>.
\<close>

fun split_dot :: "ustring \<Rightarrow> (ustring \<times> ustring) option" where
  "split_dot [] = None"
| "split_dot (c # cs) =
     (if c = 46 then Some ([], cs)
      else (case split_dot cs of None \<Rightarrow> None | Some (a, b) \<Rightarrow> Some (c # a, b)))"

fun re_d :: "ustring \<Rightarrow> bool" where
  "re_d [a] = (49 \<le> a \<and> a \<le> 57)"
| "re_d [a, b] =
     ((a = 51 \<and> (b = 48 \<or> b = 49)) \<or>
      ((a = 49 \<or> a = 50) \<and> isdecimal_cp b) \<or>
      (a = 48 \<and> 49 \<le> b \<and> b \<le> 57) \<or>
      (a = 32 \<and> 49 \<le> b \<and> b \<le> 57))"
| "re_d s = False"

fun re_m :: "ustring \<Rightarrow> bool" where
  "re_m [a] = (49 \<le> a \<and> a \<le> 57)"
| "re_m [a, b] =
     ((a = 49 \<and> 48 \<le> b \<and> b \<le> 50) \<or>
      (a = 48 \<and> 49 \<le> b \<and> b \<le> 57))"
| "re_m s = False"

fun re_Y :: "ustring \<Rightarrow> bool" where
  "re_Y [a, b, c, d] = (isdecimal_cp a \<and> isdecimal_cp b \<and> isdecimal_cp c \<and> isdecimal_cp d)"
| "re_Y s = False"

text \<open>
  \<open>int()\<close> on a matched group: the decimal digits, read in base ten, after blanks, which
  \<open>int()\<close> strips. \<open>None\<close> is the \<open>ValueError\<close> of \<open>int()\<close> on a string that is not of
  this form.
\<close>

fun int_digits :: "int \<Rightarrow> ustring \<Rightarrow> int option" where
  "int_digits acc [] = Some acc"
| "int_digits acc (c # cs) =
     (case decimal_value c of None \<Rightarrow> None | Some v \<Rightarrow> int_digits (10 * acc + v) cs)"

definition py_int :: "ustring \<Rightarrow> int option" where
  "py_int s = (let t = dropWhile (\<lambda>c. c = 32) s in if t = [] then None else int_digits 0 t)"

definition strptime_str :: "ustring \<Rightarrow> error + date" where
  "strptime_str s =
     (case split_dot s of
        None \<Rightarrow> Inl (ValueError, Library)
      | Some (d, r) \<Rightarrow>
          (case split_dot r of
             None \<Rightarrow> Inl (ValueError, Library)
           | Some (m, y) \<Rightarrow>
               if re_d d \<and> re_m m \<and> re_Y y then
                 (case py_int y of
                    None \<Rightarrow> Inl (ValueError, Library)
                  | Some yy \<Rightarrow>
                      (case py_int m of
                         None \<Rightarrow> Inl (ValueError, Library)
                       | Some mm \<Rightarrow>
                           (case py_int d of
                              None \<Rightarrow> Inl (ValueError, Library)
                            | Some dd \<Rightarrow> new_date yy mm dd)))
               else Inl (ValueError, Library)))"

fun strptime :: "pyval \<Rightarrow> error + date" where
  "strptime (PyStr s) = strptime_str s"
| "strptime v = Inl (TypeError, Library)"

text \<open>
  \<open>Birthday.__init__\<close>: the value is parsed only to validate it; the object keeps the
  value as it was given. A \<open>ValueError\<close> and a \<open>TypeError\<close> are caught and raised again
  with the message of the program.
\<close>

definition Birthday :: "pyval \<Rightarrow> error + pyval" where
  "Birthday v =
     (case strptime v of
        Inl e \<Rightarrow>
          if fst e = ValueError then Inl (ValueError, Literal ''Invalid date format. Use DD.MM.YYYY'')
          else if fst e = TypeError then Inl (TypeError, Literal ''Invalid date format. Use DD.MM.YYYY'')
          else Inl e
      | Inr dt \<Rightarrow> Inr v)"

section \<open>Records\<close>

text \<open>
  A \<open>Record\<close> has a name, a list of \<open>Phone\<close> objects and a birthday or \<open>None\<close>.
  \<open>edit_phone\<close> assigns to the \<open>value\<close> of a \<open>Phone\<close> object that the list holds, so the
  phones are references: the heap gives the \<open>value\<close> of each \<open>Phone\<close> object, a reference
  is its index, and a new object is allocated at the end. \<open>name\<close> and \<open>birthday\<close> are
  the values of the \<open>Name\<close> and of the \<open>Birthday\<close> object, which nothing assigns to.
\<close>

record Record =
  name :: pyval
  phones :: "nat list"
  birthday :: "pyval option"

type_synonym heap = "pyval list"

text \<open>
  A method takes the heap and the record. Its result is the heap and the record as the
  method leaves them, when it returns and when it raises, and the outcome: the exception
  or the returned value.
\<close>

definition Record_init :: "pyval \<Rightarrow> error + Record" where
  "Record_init nm =
     (case Name nm of
        Inl e \<Rightarrow> Inl e
      | Inr n \<Rightarrow> Inr \<lparr>name = n, phones = [], birthday = None\<rparr>)"

definition add_birthday :: "heap \<times> Record \<Rightarrow> pyval \<Rightarrow> (heap \<times> Record) \<times> (error + unit)" where
  "add_birthday st b_day =
     (case Birthday b_day of
        Inl e \<Rightarrow> (st, Inl e)
      | Inr v \<Rightarrow> ((fst st, (snd st)\<lparr>birthday := Some v\<rparr>), Inr ()))"

definition add_phone :: "heap \<times> Record \<Rightarrow> pyval \<Rightarrow> (heap \<times> Record) \<times> (error + unit)" where
  "add_phone st phone =
     (case Phone phone of
        Inl e \<Rightarrow> (st, Inl e)
      | Inr v \<Rightarrow>
          ((fst st @ [v], (snd st)\<lparr>phones := phones (snd st) @ [length (fst st)]\<rparr>), Inr ()))"

definition remove_phone :: "heap \<times> Record \<Rightarrow> pyval \<Rightarrow> heap \<times> Record" where
  "remove_phone st phone =
     (fst st, (snd st)\<lparr>phones := filter (\<lambda>p. fst st ! p \<noteq> phone) (phones (snd st))\<rparr>)"

text \<open>
  The loop of \<open>find_phone\<close>: the first \<open>Phone\<close> of the list whose value is equal. The
  method returns the object, here its reference. In \<open>edit_phone\<close> the test
  \<open>if old_phone_obj\<close> is true of every \<open>Phone\<close> object (the class defines neither
  \<open>__bool__\<close> nor \<open>__len__\<close>) and false of \<open>None\<close>.
\<close>

fun find_ref :: "heap \<Rightarrow> nat list \<Rightarrow> pyval \<Rightarrow> nat option" where
  "find_ref h [] phone = None"
| "find_ref h (p # ps) phone = (if h ! p = phone then Some p else find_ref h ps phone)"

definition find_phone :: "heap \<times> Record \<Rightarrow> pyval \<Rightarrow> nat option" where
  "find_phone st phone = find_ref (fst st) (phones (snd st)) phone"

definition edit_phone ::
  "heap \<times> Record \<Rightarrow> pyval \<Rightarrow> pyval \<Rightarrow> (heap \<times> Record) \<times> (error + unit)" where
  "edit_phone st old_phone new_phone =
     (case find_phone st old_phone of
        Some old_phone_obj \<Rightarrow>
          (case not_10_digits new_phone of
             Inl e \<Rightarrow> (st, Inl e)
           | Inr bad \<Rightarrow>
               if bad
               then (st, Inl (ValueError, Literal ''New phone number must contain 10 digits''))
               else (((fst st)[old_phone_obj := new_phone], snd st), Inr ()))
      | None \<Rightarrow> (st, Inl (ValueError, Literal ''Phone number not found.'')))"

text \<open>The references of a record point into the heap.\<close>

definition refs_ok :: "heap \<times> Record \<Rightarrow> bool" where
  "refs_ok st = (list_all (\<lambda>p. p < length (fst st)) (phones (snd st)))"

section \<open>The address book\<close>

text \<open>
  \<open>AddressBook\<close> is a \<open>UserDict\<close>: its \<open>data\<close> is a dictionary from names to records,
  which keeps the order in which the keys were inserted. It is the list of its items in
  that order; a key occurs once. Assigning to a key that is present replaces its value in
  place, assigning to a new key appends the item. The method \<open>find\<close> is \<open>find_record\<close>
  here, \<open>find\<close> being a function on lists.
\<close>

type_synonym AddressBook = "(pyval \<times> Record) list"

definition add_record :: "AddressBook \<Rightarrow> Record \<Rightarrow> AddressBook" where
  "add_record book record = AList.update (name record) record book"

definition find_record :: "AddressBook \<Rightarrow> pyval \<Rightarrow> Record option" where
  "find_record book nm = map_of book nm"

definition delete :: "AddressBook \<Rightarrow> pyval \<Rightarrow> AddressBook \<times> (error + unit)" where
  "delete book nm =
     (if nm \<in> set (map fst book) then (AList.delete nm book, Inr ())
      else (book, Inl (ValueError, RecordNotFound nm)))"

subsection \<open>Upcoming birthdays\<close>

text \<open>An entry of the report: the dictionary with the keys \<open>name\<close> and \<open>birthday\<close>.\<close>

record entry =
  entry_name :: pyval
  entry_birthday :: ustring

text \<open>
  The loop of \<open>get_upcoming_birthdays\<close> over \<open>self.data.values()\<close>, with the list
  \<open>birthdays\<close> it appends to; an exception of \<open>strptime\<close> or of \<open>replace\<close> leaves the
  loop and the method. \<open>today\<close> is the date of the clock. The test \<open>if user.birthday\<close>
  is true of every \<open>Birthday\<close> object and false of \<open>None\<close>.
\<close>

fun upcoming_loop :: "date \<Rightarrow> Record list \<Rightarrow> entry list \<Rightarrow> error + entry list" where
  "upcoming_loop today [] birthdays = Inr birthdays"
| "upcoming_loop today (user # users) birthdays =
     (case birthday user of
        None \<Rightarrow> upcoming_loop today users birthdays
      | Some b \<Rightarrow>
          (case strptime b of
             Inl e \<Rightarrow> Inl e
           | Inr parsed \<Rightarrow>
               (case replace_year parsed (year today) of
                  Inl e \<Rightarrow> Inl e
                | Inr birth_date \<Rightarrow>
                    (let difference_date = toordinal birth_date - toordinal today in
                     if 0 \<le> difference_date \<and> difference_date \<le> 7 then
                       if isoweekday birth_date < 6 then
                         upcoming_loop today users
                           (birthdays @ [\<lparr>entry_name = name user, entry_birthday = strftime birth_date\<rparr>])
                       else
                         upcoming_loop today users
                           (birthdays @ [\<lparr>entry_name = name user, entry_birthday = strftime birth_date\<rparr>])
                     else upcoming_loop today users birthdays))))"

definition get_upcoming_birthdays :: "date \<Rightarrow> AddressBook \<Rightarrow> error + entry list" where
  "get_upcoming_birthdays today book = upcoming_loop today (map snd book) []"

text \<open>The same loop with the test of the weekday taken out.\<close>

fun upcoming_loop_no_weekday :: "date \<Rightarrow> Record list \<Rightarrow> entry list \<Rightarrow> error + entry list" where
  "upcoming_loop_no_weekday today [] birthdays = Inr birthdays"
| "upcoming_loop_no_weekday today (user # users) birthdays =
     (case birthday user of
        None \<Rightarrow> upcoming_loop_no_weekday today users birthdays
      | Some b \<Rightarrow>
          (case strptime b of
             Inl e \<Rightarrow> Inl e
           | Inr parsed \<Rightarrow>
               (case replace_year parsed (year today) of
                  Inl e \<Rightarrow> Inl e
                | Inr birth_date \<Rightarrow>
                    (let difference_date = toordinal birth_date - toordinal today in
                     if 0 \<le> difference_date \<and> difference_date \<le> 7 then
                       upcoming_loop_no_weekday today users
                         (birthdays @ [\<lparr>entry_name = name user, entry_birthday = strftime birth_date\<rparr>])
                     else upcoming_loop_no_weekday today users birthdays))))"

definition get_upcoming_birthdays_no_weekday :: "date \<Rightarrow> AddressBook \<Rightarrow> error + entry list" where
  "get_upcoming_birthdays_no_weekday today book = upcoming_loop_no_weekday today (map snd book) []"

subsection \<open>The report as the specification words it\<close>

text \<open>
  The specification's \<open>upcomingBirthdays\<close>: for every record with a birthday, the
  candidate is the birthday's day and month in the year of \<open>today\<close>; \<open>delta\<close> is the
  number of days from \<open>today\<close> to the candidate; the record is due when
  \<open>0 \<le> delta \<le> 7\<close>, and is then reported with the candidate written as \<open>DD.MM.YYYY\<close>;
  the entries follow the order of the directory. A record without a candidate date has
  no entry.
\<close>

definition DD_MM_YYYY :: "date \<Rightarrow> ustring" where
  "DD_MM_YYYY dt =
     (let d = nat (day dt); m = nat (month dt); y = nat (year dt)
      in [48 + d div 10, 48 + d mod 10, 46,
          48 + m div 10, 48 + m mod 10, 46,
          48 + y div 1000, 48 + y div 100 mod 10, 48 + y div 10 mod 10, 48 + y mod 10])"

definition candidate :: "date \<Rightarrow> Record \<Rightarrow> date option" where
  "candidate today user =
     (case birthday user of
        None \<Rightarrow> None
      | Some b \<Rightarrow>
          (case strptime b of
             Inl e \<Rightarrow> None
           | Inr parsed \<Rightarrow>
               (case new_date (year today) (month parsed) (day parsed) of
                  Inl e \<Rightarrow> None
                | Inr c \<Rightarrow> Some c)))"

definition delta :: "date \<Rightarrow> date \<Rightarrow> int" where
  "delta today c = toordinal c - toordinal today"

definition due_entry :: "date \<Rightarrow> Record \<Rightarrow> entry option" where
  "due_entry today user =
     (case candidate today user of
        None \<Rightarrow> None
      | Some c \<Rightarrow>
          if 0 \<le> delta today c \<and> delta today c \<le> 7
          then Some \<lparr>entry_name = name user, entry_birthday = DD_MM_YYYY c\<rparr>
          else None)"

definition upcomingBirthdays_spec :: "date \<Rightarrow> AddressBook \<Rightarrow> entry list" where
  "upcomingBirthdays_spec today book = List.map_filter (due_entry today) (map snd book)"

text \<open>
  What the constructors establish of a record in the directory: its birthday, when it has
  one, is a value that \<open>Birthday\<close> accepts. \<open>leap_day_clash\<close>: the birthday is the 29th
  of February and the year of \<open>today\<close> is not a leap year. \<open>before_today\<close>: the
  birthday's month and day come before those of \<open>today\<close>.
\<close>

definition birthday_valid :: "Record \<Rightarrow> bool" where
  "birthday_valid user = (case birthday user of None \<Rightarrow> True | Some b \<Rightarrow> Birthday b = Inr b)"

definition leap_day_clash :: "date \<Rightarrow> Record \<Rightarrow> bool" where
  "leap_day_clash today user =
     (case birthday user of
        None \<Rightarrow> False
      | Some b \<Rightarrow>
          (case strptime b of
             Inl e \<Rightarrow> False
           | Inr parsed \<Rightarrow> month parsed = 2 \<and> day parsed = 29 \<and> \<not> is_leap (year today)))"

definition before_today :: "date \<Rightarrow> Record \<Rightarrow> bool" where
  "before_today today user =
     (case birthday user of
        None \<Rightarrow> False
      | Some b \<Rightarrow>
          (case strptime b of
             Inl e \<Rightarrow> False
           | Inr parsed \<Rightarrow>
               month parsed < month today \<or>
               (month parsed = month today \<and> day parsed < day today)))"

section \<open>Example data\<close>

text \<open>Records and dates that the statements below are evaluated on.\<close>

definition contact :: "string \<Rightarrow> string option \<Rightarrow> Record" where
  "contact nm b = \<lparr>name = PyStr (ustr nm), phones = [], birthday = map_option (\<lambda>s. PyStr (ustr s)) b\<rparr>"

definition june_book :: AddressBook where
  "june_book =
     [(PyStr (ustr ''Ann''), contact ''Ann'' (Some ''12.06.1990'')),
      (PyStr (ustr ''Bob''), contact ''Bob'' (Some ''01.01.1990'')),
      (PyStr (ustr ''Cat''), contact ''Cat'' None),
      (PyStr (ustr ''Dan''), contact ''Dan'' (Some ''10.06.2000'')),
      (PyStr (ustr ''Eve''), contact ''Eve'' (Some ''18.06.1985'')),
      (PyStr (ustr ''Fay''), contact ''Fay'' (Some ''15.06.1971''))]"

definition leap_book :: AddressBook where
  "leap_book =
     [(PyStr (ustr ''A''), contact ''A'' (Some ''03.03.1990'')),
      (PyStr (ustr ''B''), contact ''B'' (Some ''29.02.2000''))]"

section \<open>Auxiliary facts\<close>

subsection \<open>Digits and phone numbers\<close>

lemma ascii_digit_isdecimal: "ascii_digit c \<Longrightarrow> isdecimal_cp c"
  by (simp add: ascii_digit_def isdecimal_cp_def decimal_ranges_def)

lemma ascii_digit_isdigit: "ascii_digit c \<Longrightarrow> isdigit_cp c"
  by (simp add: isdigit_cp_def ascii_digit_isdecimal)

lemma list_all_ascii_isdigit: "list_all ascii_digit s \<Longrightarrow> list_all isdigit_cp s"
  by (induction s) (auto simp: ascii_digit_isdigit)

lemma Phone_PyStr:
  "Phone (PyStr s) =
     (if length s = 10 \<and> list_all isdigit_cp s then Inr (PyStr s)
      else Inl (ValueError, Literal ''Phone number must contain 10 digits''))"
  by (auto simp: Phone_def not_10_digits_def str_isdigit_def)

lemma Phone_PyBytes:
  "Phone (PyBytes b) =
     (if length b = 10 \<and> list_all ascii_digit b then Inr (PyBytes b)
      else Inl (ValueError, Literal ''Phone number must contain 10 digits''))"
  by (auto simp: Phone_def not_10_digits_def bytes_isdigit_def)

subsection \<open>Dates, formatting and the loop of the report\<close>

lemma decimal_small: "n < 10 \<Longrightarrow> decimal n = [48 + n]"
  by (simp add: decimal.simps)

lemma decimal_2: "10 \<le> n \<Longrightarrow> n < 100 \<Longrightarrow> decimal n = [48 + n div 10, 48 + n mod 10]"
  by (subst decimal.simps) (simp add: decimal_small)

lemma decimal_3: "100 \<le> n \<Longrightarrow> n < 1000 \<Longrightarrow> decimal n = [48 + n div 100, 48 + n div 10 mod 10, 48 + n mod 10]"
  by (subst decimal.simps) (simp add: decimal_2 div_mult2_eq[symmetric])

lemma decimal_4: "1000 \<le> n \<Longrightarrow> n < 10000 \<Longrightarrow>
   decimal n = [48 + n div 1000, 48 + n div 100 mod 10, 48 + n div 10 mod 10, 48 + n mod 10]"
  by (subst decimal.simps) (simp add: decimal_3 div_mult2_eq[symmetric])

lemma zero_pad2_eq: "n < 100 \<Longrightarrow> zero_pad2 n = [48 + n div 10, 48 + n mod 10]"
  by (cases "n < 10") (simp_all add: zero_pad2_def decimal_small decimal_2)

lemma days_in_month_le_31: "1 \<le> m \<Longrightarrow> m \<le> 12 \<Longrightarrow> days_in_month y m \<le> 31"
proof -
  assume "1 \<le> m" "m \<le> 12"
  then have "m = 1 \<or> m = 2 \<or> m = 3 \<or> m = 4 \<or> m = 5 \<or> m = 6 \<or> m = 7 \<or> m = 8 \<or> m = 9 \<or> m = 10 \<or> m = 11 \<or> m = 12"
    by arith
  then show ?thesis
    by (auto simp: days_in_month_def DAYS_IN_MONTH_def)
qed

lemma new_date_Inr: "new_date y m d = Inr dt \<longleftrightarrow> valid_ymd y m d \<and> dt = \<lparr>year = y, month = m, day = d\<rparr>"
  by (auto simp: new_date_def valid_ymd_def)

lemma new_date_Inl: "new_date y m d = Inl e \<longleftrightarrow> \<not> valid_ymd y m d \<and> e = (ValueError, Library)"
  by (auto simp: new_date_def valid_ymd_def)

lemma strftime_DD_MM_YYYY:
  assumes "valid_date c" "1000 \<le> year c"
  shows "strftime c = DD_MM_YYYY c"
proof -
  from assms have m: "1 \<le> month c" "month c \<le> 12" and d: "1 \<le> day c" "day c \<le> days_in_month (year c) (month c)"
    and y: "year c \<le> 9999"
    by (simp_all add: valid_date_def valid_ymd_def)
  from days_in_month_le_31[OF m, of "year c"] d have "day c \<le> 31" by linarith
  then have dn: "nat (day c) < 100" by linarith
  from m have mn: "nat (month c) < 100" by linarith
  from y assms(2) have yn: "1000 \<le> nat (year c)" "nat (year c) < 10000" by linarith+
  show ?thesis
    by (simp add: strftime_def DD_MM_YYYY_def Let_def zero_pad2_eq[OF dn] zero_pad2_eq[OF mn] decimal_4[OF yn])
qed

lemma strptime_str_Inl: "strptime_str s = Inl e \<Longrightarrow> e = (ValueError, Library)"
  by (auto simp: strptime_str_def new_date_Inl split: option.splits if_splits prod.splits)

lemma strptime_str_valid: "strptime_str s = Inr dt \<Longrightarrow> valid_date dt"
  by (auto simp: strptime_str_def new_date_Inr valid_date_def split: option.splits if_splits prod.splits)

lemma strptime_valid: "strptime b = Inr dt \<Longrightarrow> valid_date dt"
  by (cases b) (auto dest: strptime_str_valid)

lemma upcoming_loop_eq_no_weekday:
  "upcoming_loop today users acc = upcoming_loop_no_weekday today users acc"
  by (induction users arbitrary: acc) (auto simp: Let_def split: option.splits sum.splits)


lemma month_cases:
  "1 \<le> m \<Longrightarrow> m \<le> 12 \<Longrightarrow>
   m = 1 \<or> m = 2 \<or> m = 3 \<or> m = 4 \<or> m = 5 \<or> m = 6 \<or> m = 7 \<or> m = 8 \<or> m = 9 \<or> m = 10 \<or> m = 11 \<or> (m::int) = 12"
  by arith

lemma days_before_month_step:
  assumes "1 \<le> m" "m < 12"
  shows "days_before_month y (m + 1) = days_before_month y m + days_in_month y m"
proof -
  from assms have "m = 1 \<or> m = 2 \<or> m = 3 \<or> m = 4 \<or> m = 5 \<or> m = 6 \<or> m = 7 \<or> m = 8 \<or> m = 9 \<or> m = 10 \<or> m = 11"
    by arith
  then show ?thesis
    by (auto simp: days_before_month_def days_in_month_def DAYS_IN_MONTH_def DAYS_BEFORE_MONTH_def)
qed

lemma days_in_month_pos: "1 \<le> m \<Longrightarrow> m \<le> 12 \<Longrightarrow> 28 \<le> days_in_month y m"
  using month_cases[of m] by (auto simp: days_in_month_def DAYS_IN_MONTH_def)

lemma days_before_month_mono:
  assumes "1 \<le> m" "m \<le> m'" "m' \<le> 12"
  shows "days_before_month y m \<le> days_before_month y m'"
  using assms(2,1,3)
proof (induction m' rule: int_ge_induct)
  case base
  show ?case by simp
next
  case (step i)
  then have "days_before_month y (i + 1) = days_before_month y i + days_in_month y i"
    by (intro days_before_month_step) auto
  moreover have "28 \<le> days_in_month y i" using step by (intro days_in_month_pos) auto
  moreover have "days_before_month y m \<le> days_before_month y i" using step by auto
  ultimately show ?case by linarith
qed

lemma ymd2ord_earlier_month:
  assumes "1 \<le> m" "m < m'" "m' \<le> 12" "d \<le> days_in_month y m" "1 \<le> d'"
  shows "ymd2ord y m d < ymd2ord y m' d'"
proof -
  have "days_before_month y (m + 1) = days_before_month y m + days_in_month y m"
    using assms by (intro days_before_month_step) auto
  moreover have "days_before_month y (m + 1) \<le> days_before_month y m'"
    using assms by (intro days_before_month_mono) auto
  ultimately show ?thesis using assms by (simp add: ymd2ord_def)
qed


lemma candidate_SomeD:
  assumes "candidate today u = Some c"
  shows "\<exists>b parsed. birthday u = Some b \<and> strptime b = Inr parsed \<and>
           replace_year parsed (year today) = Inr c \<and> valid_date c \<and> year c = year today \<and>
           month c = month parsed \<and> day c = day parsed"
  using assms
  by (auto simp: candidate_def replace_year_def new_date_Inr valid_date_def
           split: option.splits sum.splits)

lemma candidate_NoneD:
  assumes "candidate today u = None" "birthday u = Some b"
  shows "(\<exists>e. strptime b = Inl e) \<or>
         (\<exists>parsed e. strptime b = Inr parsed \<and> replace_year parsed (year today) = Inl e)"
  using assms
  by (auto simp: candidate_def replace_year_def split: option.splits sum.splits)

lemma upcoming_loop_spec:
  assumes "1000 \<le> year today"
    and "list_all (\<lambda>u. birthday u = None \<or> candidate today u \<noteq> None) users"
  shows "upcoming_loop today users acc = Inr (acc @ List.map_filter (due_entry today) users)"
  using assms(2)
proof (induction users arbitrary: acc)
  case Nil
  show ?case by (simp add: List.map_filter_simps)
next
  case (Cons u us)
  then have tl: "\<And>acc. upcoming_loop today us acc = Inr (acc @ List.map_filter (due_entry today) us)"
    by simp
  show ?case
  proof (cases "birthday u")
    case None
    then have "due_entry today u = None" by (simp add: due_entry_def candidate_def)
    with None tl show ?thesis by (simp add: List.map_filter_simps)
  next
    case (Some b)
    with Cons.prems obtain c where c: "candidate today u = Some c" by auto
    from candidate_SomeD[OF c] Some obtain parsed where
      p: "strptime b = Inr parsed" "replace_year parsed (year today) = Inr c"
      and v: "valid_date c" "year c = year today"
      by auto
    from v assms(1) have fmt: "strftime c = DD_MM_YYYY c"
      by (intro strftime_DD_MM_YYYY) auto
    have due: "due_entry today u =
        (if 0 \<le> toordinal c - toordinal today \<and> toordinal c - toordinal today \<le> 7
         then Some \<lparr>entry_name = name u, entry_birthday = strftime c\<rparr> else None)"
      using c fmt by (simp add: due_entry_def delta_def)
    show ?thesis
      using Some p tl due
      by (simp add: List.map_filter_simps Let_def)
  qed
qed

lemma upcoming_loop_raises:
  assumes "\<not> list_all (\<lambda>u. birthday u = None \<or> candidate today u \<noteq> None) users"
  shows "\<exists>e. upcoming_loop today users acc = Inl e"
  using assms
proof (induction users arbitrary: acc)
  case Nil
  then show ?case by simp
next
  case (Cons u us)
  show ?case
  proof (cases "birthday u = None \<or> candidate today u \<noteq> None")
    case True
    with Cons.prems have "\<not> list_all (\<lambda>u. birthday u = None \<or> candidate today u \<noteq> None) us" by auto
    from Cons.IH[OF this] show ?thesis
      by (auto simp: Let_def split: option.splits sum.splits)
  next
    case False
    then obtain b where b: "birthday u = Some b" "candidate today u = None" by auto
    from candidate_NoneD[OF b(2) b(1)] b(1) show ?thesis by auto
  qed
qed

lemma birthday_valid_parses:
  assumes "birthday_valid u" "birthday u = Some b"
  shows "\<exists>parsed. strptime b = Inr parsed \<and> valid_date parsed"
  using assms
  by (auto simp: birthday_valid_def Birthday_def strptime_valid split: sum.splits if_splits)

lemma days_in_month_other_year:
  assumes "1 \<le> m" "m \<le> 12" "d \<le> days_in_month y m" "\<not> (m = 2 \<and> d = 29 \<and> \<not> is_leap y')"
  shows "d \<le> days_in_month y' m"
  using month_cases[OF assms(1,2)] assms(3,4)
  by (auto simp: days_in_month_def DAYS_IN_MONTH_def split: if_splits)

lemma has_candidate:
  assumes "valid_date today" "birthday_valid u" "\<not> leap_day_clash today u"
  shows "birthday u = None \<or> candidate today u \<noteq> None"
proof (cases "birthday u")
  case None
  then show ?thesis by simp
next
  case (Some b)
  from birthday_valid_parses[OF assms(2) Some] obtain parsed where
    p: "strptime b = Inr parsed" "valid_date parsed" by auto
  from assms(3) Some p have nc: "\<not> (month parsed = 2 \<and> day parsed = 29 \<and> \<not> is_leap (year today))"
    by (simp add: leap_day_clash_def)
  from p(2) have "1 \<le> month parsed" "month parsed \<le> 12" "1 \<le> day parsed"
    "day parsed \<le> days_in_month (year parsed) (month parsed)"
    by (simp_all add: valid_date_def valid_ymd_def)
  with nc assms(1) have "valid_ymd (year today) (month parsed) (day parsed)"
    using days_in_month_other_year[of "month parsed" "day parsed" "year parsed" "year today"]
    by (auto simp: valid_date_def valid_ymd_def)
  then obtain c where "new_date (year today) (month parsed) (day parsed) = Inr c"
    by (simp add: new_date_Inr)
  with Some p show ?thesis by (simp add: candidate_def)
qed

lemma list_all_has_candidate:
  assumes "valid_date today" "list_all birthday_valid users" "\<not> list_ex (leap_day_clash today) users"
  shows "list_all (\<lambda>u. birthday u = None \<or> candidate today u \<noteq> None) users"
  using assms(2,3) has_candidate[OF assms(1)]
  by (induction users) auto


lemma leap_day_clash_raises:
  assumes "leap_day_clash today u" "birthday u = Some b" "strptime b = Inr parsed"
  shows "replace_year parsed (year today) = Inl (ValueError, Library)"
proof -
  from assms have "month parsed = 2" "day parsed = 29" "\<not> is_leap (year today)"
    by (simp_all add: leap_day_clash_def)
  then have "\<not> valid_ymd (year today) (month parsed) (day parsed)"
    by (simp add: valid_ymd_def days_in_month_def DAYS_IN_MONTH_def)
  then show ?thesis by (simp add: replace_year_def new_date_Inl)
qed

lemma replace_year_Inl: "replace_year d y = Inl e \<Longrightarrow> e = (ValueError, Library)"
  by (simp add: replace_year_def new_date_Inl)

lemma upcoming_loop_leap_day:
  assumes "list_all birthday_valid users" "list_ex (leap_day_clash today) users"
  shows "upcoming_loop today users acc = Inl (ValueError, Library)"
  using assms
proof (induction users arbitrary: acc)
  case Nil
  then show ?case by simp
next
  case (Cons u us)
  show ?case
  proof (cases "birthday u")
    case None
    then have "\<not> leap_day_clash today u" by (simp add: leap_day_clash_def)
    with Cons None show ?thesis by simp
  next
    case (Some b)
    from Cons.prems have "birthday_valid u" by simp
    from birthday_valid_parses[OF this Some] obtain parsed where p: "strptime b = Inr parsed" by auto
    show ?thesis
    proof (cases "leap_day_clash today u")
      case True
      from leap_day_clash_raises[OF True Some p] Some p show ?thesis by simp
    next
      case False
      with Cons have tl: "\<And>acc. upcoming_loop today us acc = Inl (ValueError, Library)" by simp
      show ?thesis
      proof (cases "replace_year parsed (year today)")
        case (Inl e)
        with replace_year_Inl[OF Inl] Some p show ?thesis by simp
      next
        case (Inr c)
        with Some p tl show ?thesis by (simp add: Let_def)
      qed
    qed
  qed
qed

lemma before_today_earlier:
  assumes "valid_date today" "valid_date c" "year c = year today"
    and "month c < month today \<or> (month c = month today \<and> day c < day today)"
  shows "toordinal c < toordinal today"
proof -
  from assms(1,2) have r: "1 \<le> month c" "month today \<le> 12" "day c \<le> days_in_month (year c) (month c)"
    "1 \<le> day today"
    by (simp_all add: valid_date_def valid_ymd_def)
  from assms(4) show ?thesis
  proof
    assume "month c < month today"
    from ymd2ord_earlier_month[OF r(1) this r(2) r(3) r(4)] assms(3)
    show ?thesis by (simp add: toordinal_def)
  next
    assume "month c = month today \<and> day c < day today"
    with assms(3) show ?thesis by (simp add: toordinal_def ymd2ord_def)
  qed
qed

lemma upcoming_loop_skips_before_today:
  assumes "valid_date today" "before_today today u"
  shows "upcoming_loop today (u # us) acc = Inr res \<Longrightarrow> upcoming_loop today us acc = Inr res"
proof -
  assume run: "upcoming_loop today (u # us) acc = Inr res"
  from assms(2) obtain b parsed where b: "birthday u = Some b" "strptime b = Inr parsed"
    and lt: "month parsed < month today \<or> (month parsed = month today \<and> day parsed < day today)"
    by (auto simp: before_today_def split: option.splits sum.splits)
  from run b obtain c where c: "replace_year parsed (year today) = Inr c"
    by (cases "replace_year parsed (year today)") auto
  then have vc: "valid_date c" "year c = year today" "month c = month parsed" "day c = day parsed"
    by (auto simp: replace_year_def new_date_Inr valid_date_def)
  from before_today_earlier[OF assms(1) vc(1,2)] lt vc(3,4)
  have "toordinal c < toordinal today" by simp
  with run b c show ?thesis by (simp add: Let_def)
qed

lemma upcoming_loop_remove:
  assumes "valid_date today" "before_today today u"
  shows "upcoming_loop today (us1 @ u # us2) acc = Inr res \<Longrightarrow> upcoming_loop today (us1 @ us2) acc = Inr res"
proof (induction us1 arbitrary: acc)
  case Nil
  then show ?case using upcoming_loop_skips_before_today[OF assms] by simp
next
  case (Cons x xs)
  then show ?case
    by (auto simp: Let_def split: option.splits sum.splits if_splits)
qed


subsection \<open>Parsing, phones and the directory\<close>

lemma split_dot_SomeD: "split_dot s = Some (a, b) \<Longrightarrow> s = a @ 46 # b \<and> 46 \<notin> set a"
  by (induction s arbitrary: a b) (auto split: if_splits option.splits)

lemma split_dot_append: "46 \<notin> set a \<Longrightarrow> split_dot (a @ 46 # b) = Some (a, b)"
  by (induction a) auto

lemma split_dot_Some_iff: "split_dot s = Some (a, b) \<longleftrightarrow> s = a @ 46 # b \<and> 46 \<notin> set a"
  using split_dot_SomeD split_dot_append by blast

lemma not_decimal_dot: "\<not> isdecimal_cp 46"
  by (simp add: isdecimal_cp_def decimal_ranges_def)

lemma re_d_no_dot: "re_d d \<Longrightarrow> 46 \<notin> set d"
  by (cases d rule: re_d.cases) (auto simp: not_decimal_dot)

lemma re_m_no_dot: "re_m m \<Longrightarrow> 46 \<notin> set m"
  by (cases m rule: re_m.cases) auto

lemma strptime_str_Inr_iff:
  "strptime_str s = Inr dt \<longleftrightarrow>
     (\<exists>d m y dd mm yy. s = d @ [46] @ m @ [46] @ y \<and> re_d d \<and> re_m m \<and> re_Y y \<and>
        py_int d = Some dd \<and> py_int m = Some mm \<and> py_int y = Some yy \<and>
        valid_ymd yy mm dd \<and> dt = \<lparr>year = yy, month = mm, day = dd\<rparr>)"
  (is "?L \<longleftrightarrow> ?R")
proof
  assume ?L
  then obtain d r where 1: "split_dot s = Some (d, r)"
    by (auto simp: strptime_str_def split: option.splits)
  with \<open>?L\<close> obtain m y where 2: "split_dot r = Some (m, y)"
    by (auto simp: strptime_str_def split: option.splits)
  with 1 \<open>?L\<close> have 3: "re_d d" "re_m m" "re_Y y"
    by (auto simp: strptime_str_def split: if_splits)
  with 1 2 \<open>?L\<close> obtain dd mm yy where 4: "py_int d = Some dd" "py_int m = Some mm" "py_int y = Some yy"
    and 5: "new_date yy mm dd = Inr dt"
    by (auto simp: strptime_str_def split: option.splits)
  from 1 2 have "s = d @ [46] @ m @ [46] @ y" by (simp add: split_dot_Some_iff)
  with 3 4 5 show ?R by (auto simp: new_date_Inr)
next
  assume ?R
  then obtain d m y dd mm yy where s: "s = d @ [46] @ m @ [46] @ y"
    and re: "re_d d" "re_m m" "re_Y y"
    and n: "py_int d = Some dd" "py_int m = Some mm" "py_int y = Some yy"
    and v: "valid_ymd yy mm dd" "dt = \<lparr>year = yy, month = mm, day = dd\<rparr>"
    by blast
  from s re_d_no_dot[OF re(1)] have 1: "split_dot s = Some (d, m @ [46] @ y)"
    by (simp add: split_dot_Some_iff)
  from re_m_no_dot[OF re(2)] have 2: "split_dot (m @ [46] @ y) = Some (m, y)"
    by (simp add: split_dot_Some_iff)
  from 1 2 re n v show ?L by (simp add: strptime_str_def new_date_Inr)
qed

lemma Birthday_PyStr:
  "Birthday (PyStr raw) =
     (case strptime_str raw of
        Inl e \<Rightarrow> Inl (ValueError, Literal ''Invalid date format. Use DD.MM.YYYY'')
      | Inr dt \<Rightarrow> Inr (PyStr raw))"
  by (auto simp: Birthday_def dest: strptime_str_Inl split: sum.splits)

lemma Birthday_accepts_iff:
  "Birthday (PyStr raw) = Inr (PyStr raw) \<longleftrightarrow>
     (\<exists>d m y dd mm yy. raw = d @ [46] @ m @ [46] @ y \<and> re_d d \<and> re_m m \<and> re_Y y \<and>
        py_int d = Some dd \<and> py_int m = Some mm \<and> py_int y = Some yy \<and> valid_ymd yy mm dd)"
proof -
  have "Birthday (PyStr raw) = Inr (PyStr raw) \<longleftrightarrow> (\<exists>dt. strptime_str raw = Inr dt)"
    by (auto simp: Birthday_PyStr split: sum.splits)
  then show ?thesis unfolding strptime_str_Inr_iff by blast
qed

lemma Birthday_rejects:
  "Birthday (PyStr raw) \<noteq> Inr (PyStr raw) \<Longrightarrow>
   Birthday (PyStr raw) = Inl (ValueError, Literal ''Invalid date format. Use DD.MM.YYYY'')"
  by (auto simp: Birthday_PyStr split: sum.splits)

lemma find_ref_Some:
  "find_ref h ps v = Some p \<Longrightarrow> p \<in> set ps \<and> h ! p = v"
  by (induction ps) (auto split: if_splits)

lemma find_ref_None:
  "find_ref h ps v = None \<longleftrightarrow> (\<forall>p\<in>set ps. h ! p \<noteq> v)"
  by (induction ps) auto

lemma find_ref_after_update:
  assumes "find_ref h ps old = Some p" "list_all (\<lambda>q. q < length h) ps"
  shows "find_ref (h[p := new]) ps new =
           (case find_ref h (takeWhile (\<lambda>q. q \<noteq> p) ps) new of None \<Rightarrow> Some p | Some q \<Rightarrow> Some q)"
  using assms
proof (induction ps)
  case Nil
  then show ?case by simp
next
  case (Cons q qs)
  show ?case
  proof (cases "q = p")
    case True
    with Cons.prems show ?thesis by simp
  next
    case False
    with Cons.prems have "h ! q \<noteq> old" by (auto split: if_splits dest: find_ref_Some)
    with Cons False show ?thesis by (auto split: if_splits)
  qed
qed

lemma not_10_digits_PyStr: "not_10_digits (PyStr s) = Inr (\<not> (length s = 10 \<and> list_all isdigit_cp s))"
  by (auto simp: not_10_digits_def str_isdigit_def)

lemma edit_phone_not_found:
  "find_phone st old = None \<Longrightarrow>
   edit_phone st old new = (st, Inl (ValueError, Literal ''Phone number not found.''))"
  by (simp add: edit_phone_def)

lemma edit_phone_malformed:
  "find_phone st old = Some p \<Longrightarrow> \<not> (length s = 10 \<and> list_all isdigit_cp s) \<Longrightarrow>
   edit_phone st old (PyStr s) = (st, Inl (ValueError, Literal ''New phone number must contain 10 digits''))"
  by (simp add: edit_phone_def not_10_digits_PyStr)

lemma edit_phone_valid:
  assumes "find_phone st old = Some p" "length s = 10" "list_all isdigit_cp s"
  shows "edit_phone st old (PyStr s) = (((fst st)[p := PyStr s], snd st), Inr ())"
  using assms by (simp add: edit_phone_def not_10_digits_PyStr)

lemma edit_phone_unchanged_on_error:
  "snd (edit_phone st old new) = Inl e \<Longrightarrow> fst (edit_phone st old new) = st"
  by (auto simp: edit_phone_def split: option.splits sum.splits if_splits)

lemma add_record_find:
  "find_record (add_record book r) (name r) = Some r"
  by (simp add: find_record_def add_record_def update_conv')

lemma add_record_other:
  "k \<noteq> name r \<Longrightarrow> find_record (add_record book r) k = find_record book k"
  by (simp add: find_record_def add_record_def update_conv')

lemma add_record_distinct:
  "distinct (map fst book) \<Longrightarrow> distinct (map fst (add_record book r))"
  by (simp add: add_record_def distinct_update)

subsection \<open>A date written as \<open>DD.MM.YYYY\<close> parses to itself\<close>

lemma decimal_value_ascii: "x < 10 \<Longrightarrow> decimal_value (48 + x) = Some (int x)"
  by (simp add: decimal_value_def decimal_ranges_def)

lemma isdecimal_ascii: "x < 10 \<Longrightarrow> isdecimal_cp (48 + x)"
  by (simp add: isdecimal_cp_def decimal_ranges_def)

lemma py_int_two: "a < 10 \<Longrightarrow> b < 10 \<Longrightarrow> py_int [48 + a, 48 + b] = Some (int (10 * a + b))"
  by (simp add: py_int_def decimal_value_ascii)

lemma py_int_four:
  "a < 10 \<Longrightarrow> b < 10 \<Longrightarrow> c < 10 \<Longrightarrow> d < 10 \<Longrightarrow>
   py_int [48 + a, 48 + b, 48 + c, 48 + d] = Some (int (1000 * a + 100 * b + 10 * c + d))"
  by (simp add: py_int_def decimal_value_ascii)

lemma re_d_digits:
  assumes "b < 10" and "a = 0 \<and> 1 \<le> b \<or> a = 1 \<or> a = 2 \<or> a = 3 \<and> b \<le> 1"
  shows "re_d [48 + a, 48 + b]"
proof -
  from assms(2) consider "a = 0" "1 \<le> b" | "a = 1" | "a = 2" | "a = 3" "b \<le> 1" by blast
  then show ?thesis
  proof cases
    case 1
    with assms(1) show ?thesis by simp
  next
    case 2
    with isdecimal_ascii[OF assms(1)] show ?thesis by simp
  next
    case 3
    with isdecimal_ascii[OF assms(1)] show ?thesis by simp
  next
    case 4
    then have "b = 0 \<or> b = 1" by arith
    with 4 show ?thesis by auto
  qed
qed

lemma re_m_digits:
  assumes "b < 10" and "a = 0 \<and> 1 \<le> b \<or> a = 1 \<and> b \<le> 2"
  shows "re_m [48 + a, 48 + b]"
  using assms by auto


lemma day_digits:
  assumes "1 \<le> d" "d \<le> (31::nat)"
  shows "d div 10 = 0 \<and> 1 \<le> d mod 10 \<or> d div 10 = 1 \<or> d div 10 = 2 \<or> d div 10 = 3 \<and> d mod 10 \<le> 1"
  using assms by arith

lemma month_digits:
  assumes "1 \<le> m" "m \<le> (12::nat)"
  shows "m div 10 = 0 \<and> 1 \<le> m mod 10 \<or> m div 10 = 1 \<and> m mod 10 \<le> 2"
  using assms by arith

lemma four_digits: "1000 * (y div 1000) + 100 * (y div 100 mod 10) + 10 * (y div 10 mod 10) + y mod 10 = (y::nat)"
proof -
  have a: "y = 10 * (y div 10) + y mod 10" by simp
  have "y div 10 div 10 = y div 100" by (simp add: div_mult2_eq[symmetric])
  then have b: "y div 10 = 10 * (y div 100) + y div 10 mod 10"
    using div_mult_mod_eq[of "y div 10" 10] by simp
  have "y div 100 div 10 = y div 1000" by (simp add: div_mult2_eq[symmetric])
  then have c: "y div 100 = 10 * (y div 1000) + y div 100 mod 10"
    using div_mult_mod_eq[of "y div 100" 10] by simp
  from a b c show ?thesis by linarith
qed

lemma strptime_str_DD_MM_YYYY:
  assumes "valid_date c"
  shows "strptime_str (DD_MM_YYYY c) = Inr c"
proof -
  define d m y where "d = nat (day c)" and "m = nat (month c)" and "y = nat (year c)"
  from assms have v: "valid_ymd (year c) (month c) (day c)" by (simp add: valid_date_def)
  then have mr: "1 \<le> month c" "month c \<le> 12" and dr: "1 \<le> day c" "day c \<le> days_in_month (year c) (month c)"
    and yr: "1 \<le> year c" "year c \<le> 9999"
    by (simp_all add: valid_ymd_def)
  from days_in_month_le_31[OF mr, of "year c"] dr have d31: "day c \<le> 31" by linarith
  have dd: "1 \<le> d" "d \<le> 31" "int d = day c" using dr d31 by (simp_all add: d_def)
  have mm: "1 \<le> m" "m \<le> 12" "int m = month c" using mr by (simp_all add: m_def)
  have yy: "y < 10000" "int y = year c" using yr by (simp_all add: y_def)
  have s: "DD_MM_YYYY c = [48 + d div 10, 48 + d mod 10] @ [46] @ [48 + m div 10, 48 + m mod 10] @ [46] @
      [48 + y div 1000, 48 + y div 100 mod 10, 48 + y div 10 mod 10, 48 + y mod 10]"
    by (simp add: DD_MM_YYYY_def d_def m_def y_def Let_def)
  have dm: "d mod 10 < 10" "m mod 10 < 10" by simp_all
  have 1: "re_d [48 + d div 10, 48 + d mod 10]"
    by (rule re_d_digits[OF dm(1) day_digits[OF dd(1,2)]])
  have 2: "re_m [48 + m div 10, 48 + m mod 10]"
    by (rule re_m_digits[OF dm(2) month_digits[OF mm(1,2)]])
  have y1000: "y div 1000 < 10" using yy(1) by simp
  have yd: "y div 100 mod 10 < 10" "y div 10 mod 10 < 10" "y mod 10 < 10" by simp_all
  have 3: "re_Y [48 + y div 1000, 48 + y div 100 mod 10, 48 + y div 10 mod 10, 48 + y mod 10]"
    using isdecimal_ascii[OF y1000] isdecimal_ascii[OF yd(1)] isdecimal_ascii[OF yd(2)]
      isdecimal_ascii[OF yd(3)]
    by simp
  have d10: "d div 10 < 10" using dd(2) by simp
  have m10: "m div 10 < 10" using mm(2) by simp
  have "10 * (d div 10) + d mod 10 = d" by simp
  with py_int_two[OF d10 dm(1)] dd(3) have 4: "py_int [48 + d div 10, 48 + d mod 10] = Some (day c)"
    by simp
  have "10 * (m div 10) + m mod 10 = m" by simp
  with py_int_two[OF m10 dm(2)] mm(3) have 5: "py_int [48 + m div 10, 48 + m mod 10] = Some (month c)"
    by simp
  from py_int_four[OF y1000 yd] four_digits[of y] yy(2)
  have 6: "py_int [48 + y div 1000, 48 + y div 100 mod 10, 48 + y div 10 mod 10, 48 + y mod 10] = Some (year c)"
    by simp
  have r: "c = \<lparr>year = year c, month = month c, day = day c\<rparr>" by simp
  have "\<exists>d m y dd mm yy. DD_MM_YYYY c = d @ [46] @ m @ [46] @ y \<and> re_d d \<and> re_m m \<and> re_Y y \<and>
        py_int d = Some dd \<and> py_int m = Some mm \<and> py_int y = Some yy \<and>
        valid_ymd yy mm dd \<and> c = \<lparr>year = yy, month = mm, day = dd\<rparr>"
    apply (rule exI[of _ "[48 + d div 10, 48 + d mod 10]"])
    apply (rule exI[of _ "[48 + m div 10, 48 + m mod 10]"])
    apply (rule exI[of _ "[48 + y div 1000, 48 + y div 100 mod 10, 48 + y div 10 mod 10, 48 + y mod 10]"])
    apply (rule exI[of _ "day c"])
    apply (rule exI[of _ "month c"])
    apply (rule exI[of _ "year c"])
    apply (intro conjI)
            apply (rule s)
           apply (rule 1)
          apply (rule 2)
         apply (rule 3)
        apply (rule 4)
       apply (rule 5)
      apply (rule 6)
     apply (rule v)
    apply (rule r)
    done
  then show ?thesis by (rule iffD2[OF strptime_str_Inr_iff])
qed

lemma Birthday_DD_MM_YYYY:
  "valid_date c \<Longrightarrow> Birthday (PyStr (DD_MM_YYYY c)) = Inr (PyStr (DD_MM_YYYY c))"
  by (simp add: Birthday_PyStr strptime_str_DD_MM_YYYY)

section \<open>The claims\<close>

subsection \<open>Evaluation on concrete inputs\<close>

lemmas date_eval =
  valid_date_def valid_ymd_def days_in_month_def DAYS_IN_MONTH_def is_leap_def
  toordinal_def ymd2ord_def days_before_year_def days_before_month_def DAYS_BEFORE_MONTH_def
  new_date_def replace_year_def isoweekday_def

lemmas parse_eval =
  ustr_def strptime_str_def py_int_def decimal_value_def isdecimal_cp_def decimal_ranges_def

lemmas book_eval =
  contact_def june_book_def leap_book_def birthday_valid_def leap_day_clash_def before_today_def
  Birthday_def candidate_def due_entry_def delta_def DD_MM_YYYY_def upcomingBirthdays_spec_def
  List.map_filter_simps


lemmas record_eval = find_phone_def refs_ok_def contact_def

subsection \<open>C1: the report of upcoming birthdays\<close>

text \<open>
  C1, as amended. Let \<open>today\<close> be a date of a year from 1000 on, and let every birthday
  stored in the directory be one that \<open>Birthday\<close> accepted, none of them the 29th of
  February while the year of \<open>today\<close> is not a leap year. Then \<open>get_upcoming_birthdays\<close>
  returns, and its result is the report of the specification: the records that have a
  birthday whose day and month, taken in the year of \<open>today\<close>, give a date \<open>delta\<close>
  days after \<open>today\<close> with \<open>0 \<le> delta \<le> 7\<close>, each with that date written as
  \<open>DD.MM.YYYY\<close>, in the order in which the keys were inserted.
\<close>

theorem upcoming_birthdays_report:
  assumes "valid_date today" and "1000 \<le> year today"
    and "list_all birthday_valid (map snd book)"
    and "\<not> list_ex (leap_day_clash today) (map snd book)"
  shows "get_upcoming_birthdays today book = Inr (upcomingBirthdays_spec today book)"
  using upcoming_loop_spec[OF assms(2) list_all_has_candidate[OF assms(1,3,4)], of "[]"]
  by (simp add: get_upcoming_birthdays_def upcomingBirthdays_spec_def)

text \<open>
  The directory of the example on the 10th of June 2024, a Monday: Ann (12.06.) is due,
  Bob (01.01.) has passed, Cat has no birthday, Dan (10.06.) is due today, Eve (18.06.) is
  eight days ahead, Fay (15.06., a Saturday) is due. The entries come in the order of the
  directory, not of the dates.
\<close>

theorem upcoming_birthdays_report_witness:
  "valid_date \<lparr>year = 2024, month = 6, day = 10\<rparr> \<and>
   list_all birthday_valid (map snd june_book) \<and>
   \<not> list_ex (leap_day_clash \<lparr>year = 2024, month = 6, day = 10\<rparr>) (map snd june_book) \<and>
   get_upcoming_birthdays \<lparr>year = 2024, month = 6, day = 10\<rparr> june_book =
     Inr [\<lparr>entry_name = PyStr (ustr ''Ann''), entry_birthday = ustr ''12.06.2024''\<rparr>,
          \<lparr>entry_name = PyStr (ustr ''Dan''), entry_birthday = ustr ''10.06.2024''\<rparr>,
          \<lparr>entry_name = PyStr (ustr ''Fay''), entry_birthday = ustr ''15.06.2024''\<rparr>]"
proof -
  have v: "valid_date \<lparr>year = 2024, month = 6, day = 10\<rparr>"
    by (simp add: date_eval)
  have y: "1000 \<le> year \<lparr>year = 2024, month = 6, day = 10\<rparr>"
    by simp
  have b: "list_all birthday_valid (map snd june_book)"
    by (simp add: book_eval parse_eval date_eval)
  have c: "\<not> list_ex (leap_day_clash \<lparr>year = 2024, month = 6, day = 10\<rparr>) (map snd june_book)"
    by (simp add: book_eval parse_eval date_eval)
  have s: "upcomingBirthdays_spec \<lparr>year = 2024, month = 6, day = 10\<rparr> june_book =
     [\<lparr>entry_name = PyStr (ustr ''Ann''), entry_birthday = ustr ''12.06.2024''\<rparr>,
      \<lparr>entry_name = PyStr (ustr ''Dan''), entry_birthday = ustr ''10.06.2024''\<rparr>,
      \<lparr>entry_name = PyStr (ustr ''Fay''), entry_birthday = ustr ''15.06.2024''\<rparr>]"
    by (simp add: book_eval parse_eval date_eval)
  show ?thesis
    using upcoming_birthdays_report[OF v y b c] v b c s by simp
qed

text \<open>
  The claim as stated, for every state of the directory, fails: on the 1st of March 2023
  the record A, whose birthday is the 3rd of March, is due (\<open>delta = 2\<close>), but the
  directory also holds B, born on the 29th of February 2000, and the call raises
  \<open>ValueError\<close> instead of returning a report with A.
\<close>

theorem upcoming_birthdays_every_state_counterexample:
  "get_upcoming_birthdays \<lparr>year = 2023, month = 3, day = 1\<rparr> leap_book = Inl (ValueError, Library) \<and>
   due_entry \<lparr>year = 2023, month = 3, day = 1\<rparr> (contact ''A'' (Some ''03.03.1990'')) =
     Some \<lparr>entry_name = PyStr (ustr ''A''), entry_birthday = ustr ''03.03.2023''\<rparr>"
  by (simp add: get_upcoming_birthdays_def book_eval parse_eval date_eval)

subsection \<open>C2: phone numbers\<close>

text \<open>
  C2, as amended. For every string \<open>s\<close>, \<open>Phone\<close> returns with \<open>s\<close> as its value exactly
  when \<open>s\<close> has ten characters and each of them is a digit for \<open>str.isdigit\<close>, and
  raises the \<open>ValueError\<close> of the validation on every other string; the digits of
  \<open>str.isdigit\<close> are those of Unicode, so every string of ten ASCII digits is accepted,
  and so are others. \<open>None\<close> and an integer have no \<open>isdigit\<close> and raise an
  \<open>AttributeError\<close>, which is another kind of failure than the \<open>ValueError\<close>. A \<open>bytes\<close>
  object has \<open>isdigit\<close> and \<open>len\<close>: it is validated as a string is, with the ASCII digits.
\<close>

theorem Phone_accepts:
  "Phone (PyStr s) =
     (if length s = 10 \<and> list_all isdigit_cp s then Inr (PyStr s)
      else Inl (ValueError, Literal ''Phone number must contain 10 digits'')) \<and>
   (length s = 10 \<and> list_all ascii_digit s \<longrightarrow> Phone (PyStr s) = Inr (PyStr s)) \<and>
   Phone PyNone = Inl (AttributeError, Literal ''Invalid format number. Use 10 digits'') \<and>
   Phone (PyInt i) = Inl (AttributeError, Literal ''Invalid format number. Use 10 digits'') \<and>
   Phone (PyBytes b) =
     (if length b = 10 \<and> list_all ascii_digit b then Inr (PyBytes b)
      else Inl (ValueError, Literal ''Phone number must contain 10 digits''))"
proof -
  have "length s = 10 \<and> list_all ascii_digit s \<longrightarrow> Phone (PyStr s) = Inr (PyStr s)"
    by (simp add: Phone_PyStr list_all_ascii_isdigit)
  moreover have "Phone PyNone = Inl (AttributeError, Literal ''Invalid format number. Use 10 digits'')"
    by (simp add: Phone_def not_10_digits_def)
  moreover have "Phone (PyInt i) = Inl (AttributeError, Literal ''Invalid format number. Use 10 digits'')"
    by (simp add: Phone_def not_10_digits_def)
  ultimately show ?thesis
    using Phone_PyStr[of s] Phone_PyBytes[of b] by blast
qed

text \<open>
  The ten digits \<open>1234567890\<close> are accepted, the five digits \<open>12345\<close> are not.
\<close>

theorem Phone_accepts_witness:
  "length (ustr ''1234567890'') = 10 \<and> list_all ascii_digit (ustr ''1234567890'') \<and>
   Phone (PyStr (ustr ''1234567890'')) = Inr (PyStr (ustr ''1234567890'')) \<and>
   Phone (PyStr (ustr ''12345'')) = Inl (ValueError, Literal ''Phone number must contain 10 digits'')"
proof -
  have a: "length (ustr ''1234567890'') = 10 \<and> list_all ascii_digit (ustr ''1234567890'')"
    by (simp add: ustr_def ascii_digit_def)
  have b: "length (ustr ''12345'') \<noteq> 10"
    by (simp add: ustr_def)
  from Phone_accepts[of "ustr ''1234567890''" 0 "[]"] a
  have c: "Phone (PyStr (ustr ''1234567890'')) = Inr (PyStr (ustr ''1234567890''))"
    by blast
  from Phone_accepts[of "ustr ''12345''" 0 "[]"]
  have "Phone (PyStr (ustr ''12345'')) =
     (if length (ustr ''12345'') = 10 \<and> list_all isdigit_cp (ustr ''12345'') then Inr (PyStr (ustr ''12345''))
      else Inl (ValueError, Literal ''Phone number must contain 10 digits''))"
    by blast
  with b have d: "Phone (PyStr (ustr ''12345'')) =
      Inl (ValueError, Literal ''Phone number must contain 10 digits'')"
    by simp
  from a c d show ?thesis by blast
qed

text \<open>
  The claim as stated, with ASCII digits only, fails: the ten ARABIC-INDIC digits
  U+0660 to U+0669 are digits for \<open>str.isdigit\<close>, the string has length ten, and
  \<open>Phone\<close> accepts it, though it does not match \<^verbatim>\<open>^[0-9]{10}$\<close>.
\<close>

theorem Phone_ascii_only_counterexample:
  "Phone (PyStr [1632, 1633, 1634, 1635, 1636, 1637, 1638, 1639, 1640, 1641]) =
     Inr (PyStr [1632, 1633, 1634, 1635, 1636, 1637, 1638, 1639, 1640, 1641]) \<and>
   \<not> list_all ascii_digit [1632, 1633, 1634, 1635, 1636, 1637, 1638, 1639, 1640, 1641]"
  by (simp add: Phone_PyStr isdigit_cp_def isdecimal_cp_def decimal_ranges_def ascii_digit_def)

text \<open>
  A value that is not a string and is accepted: ten ASCII digits as \<open>bytes\<close>.
\<close>

lemma Phone_bytes_example:
  "Phone (PyBytes (ustr ''1234567890'')) = Inr (PyBytes (ustr ''1234567890''))"
  by (simp add: Phone_PyBytes ustr_def ascii_digit_def)

subsection \<open>C3: birthdays\<close>

text \<open>
  C3, as amended. For every string \<open>raw\<close>, \<open>Birthday\<close> returns exactly when \<open>raw\<close> is
  \<open>d.m.y\<close> where \<open>d\<close> matches the group of \<open>%d\<close> (a day of one or two digits, a single
  digit possibly after a blank), \<open>m\<close> the group of \<open>%m\<close> (a month of one or two digits)
  and \<open>y\<close> the group of \<open>%Y\<close> (four decimal digits), and the three numbers are a date of
  the calendar in a year from 1 to 9999; on every other string it raises the
  \<open>ValueError\<close> of the program. Every date of the calendar written as \<open>DD.MM.YYYY\<close>
  is accepted. \<open>29.02.2000\<close> is accepted, \<open>31.04.2020\<close> and \<open>2000.02.29\<close> are not.
\<close>

theorem Birthday_accepts:
  "(Birthday (PyStr raw) = Inr (PyStr raw) \<longleftrightarrow>
     (\<exists>d m y dd mm yy. raw = d @ [46] @ m @ [46] @ y \<and> re_d d \<and> re_m m \<and> re_Y y \<and>
        py_int d = Some dd \<and> py_int m = Some mm \<and> py_int y = Some yy \<and> valid_ymd yy mm dd)) \<and>
   (Birthday (PyStr raw) \<noteq> Inr (PyStr raw) \<longrightarrow>
      Birthday (PyStr raw) = Inl (ValueError, Literal ''Invalid date format. Use DD.MM.YYYY'')) \<and>
   (valid_date c \<longrightarrow> Birthday (PyStr (DD_MM_YYYY c)) = Inr (PyStr (DD_MM_YYYY c))) \<and>
   Birthday (PyStr (ustr ''29.02.2000'')) = Inr (PyStr (ustr ''29.02.2000'')) \<and>
   Birthday (PyStr (ustr ''31.04.2020'')) = Inl (ValueError, Literal ''Invalid date format. Use DD.MM.YYYY'') \<and>
   Birthday (PyStr (ustr ''2000.02.29'')) = Inl (ValueError, Literal ''Invalid date format. Use DD.MM.YYYY'')"
proof -
  have "Birthday (PyStr (ustr ''29.02.2000'')) = Inr (PyStr (ustr ''29.02.2000''))"
    by (simp add: Birthday_PyStr parse_eval date_eval)
  moreover have "Birthday (PyStr (ustr ''31.04.2020'')) =
      Inl (ValueError, Literal ''Invalid date format. Use DD.MM.YYYY'')"
    by (simp add: Birthday_PyStr parse_eval date_eval)
  moreover have "Birthday (PyStr (ustr ''2000.02.29'')) =
      Inl (ValueError, Literal ''Invalid date format. Use DD.MM.YYYY'')"
    by (simp add: Birthday_PyStr parse_eval date_eval)
  ultimately show ?thesis
    using Birthday_accepts_iff[of raw] Birthday_rejects[of raw] Birthday_DD_MM_YYYY[of c] by blast
qed

text \<open>
  The string \<open>12.06.1990\<close>, with its three groups and their numbers.
\<close>

theorem Birthday_accepts_witness:
  "ustr ''12.06.1990'' = ustr ''12'' @ [46] @ ustr ''06'' @ [46] @ ustr ''1990'' \<and>
   re_d (ustr ''12'') \<and> re_m (ustr ''06'') \<and> re_Y (ustr ''1990'') \<and>
   py_int (ustr ''12'') = Some 12 \<and> py_int (ustr ''06'') = Some 6 \<and> py_int (ustr ''1990'') = Some 1990 \<and>
   valid_ymd 1990 6 12 \<and>
   Birthday (PyStr (ustr ''12.06.1990'')) = Inr (PyStr (ustr ''12.06.1990''))"
proof -
  have a: "ustr ''12.06.1990'' = ustr ''12'' @ [46] @ ustr ''06'' @ [46] @ ustr ''1990'' \<and>
    re_d (ustr ''12'') \<and> re_m (ustr ''06'') \<and> re_Y (ustr ''1990'') \<and>
    py_int (ustr ''12'') = Some 12 \<and> py_int (ustr ''06'') = Some 6 \<and> py_int (ustr ''1990'') = Some 1990 \<and>
    valid_ymd 1990 6 12"
    by (simp add: parse_eval date_eval)
  then have "\<exists>d m y dd mm yy. ustr ''12.06.1990'' = d @ [46] @ m @ [46] @ y \<and> re_d d \<and> re_m m \<and> re_Y y \<and>
        py_int d = Some dd \<and> py_int m = Some mm \<and> py_int y = Some yy \<and> valid_ymd yy mm dd"
    by blast
  with Birthday_accepts[of "ustr ''12.06.1990''"] a show ?thesis by blast
qed

text \<open>
  The claim as stated, with a day and a month of two digits each, fails: \<open>1.2.2000\<close>
  has eight characters, a day and a month of one digit, and \<open>Birthday\<close> accepts it.
\<close>

theorem Birthday_two_digit_counterexample:
  "Birthday (PyStr (ustr ''1.2.2000'')) = Inr (PyStr (ustr ''1.2.2000'')) \<and>
   length (ustr ''1.2.2000'') = 8"
  by (simp add: Birthday_PyStr parse_eval date_eval)

subsection \<open>C4: the test of the weekday\<close>

text \<open>
  C4. The test \<open>isoweekday() < 6\<close> in \<open>get_upcoming_birthdays\<close> has no effect: both
  branches append the same entry, so the method is equal, on every directory and every
  \<open>today\<close>, to the method without the test, in what it returns and in what it raises.
\<close>

theorem weekday_test_no_effect:
  "get_upcoming_birthdays today book = get_upcoming_birthdays_no_weekday today book"
  by (simp add: get_upcoming_birthdays_def get_upcoming_birthdays_no_weekday_def
      upcoming_loop_eq_no_weekday)

text \<open>
  On the 10th of June 2024 the report has a Wednesday (12.06.) and a Saturday (15.06.);
  both methods give the same three entries.
\<close>

theorem weekday_test_no_effect_witness:
  "isoweekday \<lparr>year = 2024, month = 6, day = 12\<rparr> = 3 \<and>
   isoweekday \<lparr>year = 2024, month = 6, day = 15\<rparr> = 6 \<and>
   get_upcoming_birthdays_no_weekday \<lparr>year = 2024, month = 6, day = 10\<rparr> june_book =
     Inr [\<lparr>entry_name = PyStr (ustr ''Ann''), entry_birthday = ustr ''12.06.2024''\<rparr>,
          \<lparr>entry_name = PyStr (ustr ''Dan''), entry_birthday = ustr ''10.06.2024''\<rparr>,
          \<lparr>entry_name = PyStr (ustr ''Fay''), entry_birthday = ustr ''15.06.2024''\<rparr>]"
proof -
  have "get_upcoming_birthdays \<lparr>year = 2024, month = 6, day = 10\<rparr> june_book =
     Inr [\<lparr>entry_name = PyStr (ustr ''Ann''), entry_birthday = ustr ''12.06.2024''\<rparr>,
          \<lparr>entry_name = PyStr (ustr ''Dan''), entry_birthday = ustr ''10.06.2024''\<rparr>,
          \<lparr>entry_name = PyStr (ustr ''Fay''), entry_birthday = ustr ''15.06.2024''\<rparr>]"
    by (simp add: get_upcoming_birthdays_def book_eval parse_eval date_eval strftime_def
        zero_pad2_def decimal.simps)
  moreover have "isoweekday \<lparr>year = 2024, month = 6, day = 12\<rparr> = 3"
    "isoweekday \<lparr>year = 2024, month = 6, day = 15\<rparr> = 6"
    by (simp_all add: date_eval)
  ultimately show ?thesis
    using weekday_test_no_effect[of "\<lparr>year = 2024, month = 6, day = 10\<rparr>" june_book] by simp
qed

subsection \<open>C5: a birthday on the 29th of February\<close>

text \<open>
  C5. When the directory holds a record whose birthday is the 29th of February and the
  year of \<open>today\<close> is not a leap year, \<open>get_upcoming_birthdays\<close> raises the
  \<open>ValueError\<close> of the date constructor and returns no report. The birthdays of the
  directory are values that \<open>Birthday\<close> accepted.
\<close>

theorem leap_day_birthday_raises:
  assumes "list_all birthday_valid (map snd book)"
    and "list_ex (leap_day_clash today) (map snd book)"
  shows "get_upcoming_birthdays today book = Inl (ValueError, Library)"
  using upcoming_loop_leap_day[OF assms, of "[]"] by (simp add: get_upcoming_birthdays_def)

text \<open>
  The directory with A (03.03.1990) and B (29.02.2000), on the 1st of March 2023.
\<close>

theorem leap_day_birthday_raises_witness:
  "list_all birthday_valid (map snd leap_book) \<and>
   list_ex (leap_day_clash \<lparr>year = 2023, month = 3, day = 1\<rparr>) (map snd leap_book) \<and>
   strptime (PyStr (ustr ''29.02.2000'')) = Inr \<lparr>year = 2000, month = 2, day = 29\<rparr> \<and>
   \<not> is_leap 2023 \<and>
   get_upcoming_birthdays \<lparr>year = 2023, month = 3, day = 1\<rparr> leap_book = Inl (ValueError, Library)"
proof -
  have a: "list_all birthday_valid (map snd leap_book)"
    by (simp add: book_eval parse_eval date_eval)
  have b: "list_ex (leap_day_clash \<lparr>year = 2023, month = 3, day = 1\<rparr>) (map snd leap_book)"
    by (simp add: book_eval parse_eval date_eval)
  have c: "strptime (PyStr (ustr ''29.02.2000'')) = Inr \<lparr>year = 2000, month = 2, day = 29\<rparr>"
    by (simp add: parse_eval date_eval)
  have d: "\<not> is_leap 2023" by (simp add: is_leap_def)
  show ?thesis using leap_day_birthday_raises[OF a b] a b c d by simp
qed

subsection \<open>C6: editing a phone\<close>

text \<open>
  C6, as amended. On a record whose phones are allocated objects:
  \<open>edit_phone\<close> raises the \<open>ValueError\<close> \<open>Phone number not found.\<close> when no phone of
  the list has the old value. When \<open>find_phone\<close> finds the object \<open>p\<close> and the new value
  is a string of ten digits, the list of phones is unchanged, the object \<open>p\<close> now holds
  the new value and no other object has changed; \<open>find_phone\<close> of the new value
  afterwards returns an object that holds the new value: the edited object \<open>p\<close> when no
  object before it in the list already held the new value, and otherwise the first such
  object. When an object is found and the new value is a string that is not ten digits,
  \<open>edit_phone\<close> raises the \<open>ValueError\<close> \<open>New phone number must contain 10 digits\<close>
  and changes nothing.
\<close>

theorem edit_phone_behaviour:
  assumes "refs_ok st"
  shows "(find_phone st old = None \<longrightarrow>
            edit_phone st old new = (st, Inl (ValueError, Literal ''Phone number not found.''))) \<and>
         (find_phone st old = Some p \<and> length s = 10 \<and> list_all isdigit_cp s \<longrightarrow>
            edit_phone st old (PyStr s) = (((fst st)[p := PyStr s], snd st), Inr ()) \<and>
            p \<in> set (phones (snd st)) \<and> fst st ! p = old \<and>
            length ((fst st)[p := PyStr s]) = length (fst st) \<and>
            (fst st)[p := PyStr s] ! p = PyStr s \<and>
            (\<forall>q. q \<noteq> p \<longrightarrow> (fst st)[p := PyStr s] ! q = fst st ! q) \<and>
            find_phone ((fst st)[p := PyStr s], snd st) (PyStr s) =
              (case find_ref (fst st) (takeWhile (\<lambda>q. q \<noteq> p) (phones (snd st))) (PyStr s) of
                 None \<Rightarrow> Some p
               | Some q \<Rightarrow> Some q) \<and>
            (\<exists>q. find_phone ((fst st)[p := PyStr s], snd st) (PyStr s) = Some q \<and>
                 (fst st)[p := PyStr s] ! q = PyStr s)) \<and>
         (find_phone st old = Some p \<and> \<not> (length s = 10 \<and> list_all isdigit_cp s) \<longrightarrow>
            edit_phone st old (PyStr s) =
              (st, Inl (ValueError, Literal ''New phone number must contain 10 digits'')))"
proof (intro conjI impI)
  assume "find_phone st old = None"
  then show "edit_phone st old new = (st, Inl (ValueError, Literal ''Phone number not found.''))"
    by (rule edit_phone_not_found)
next
  assume "find_phone st old = Some p \<and> \<not> (length s = 10 \<and> list_all isdigit_cp s)"
  then show "edit_phone st old (PyStr s) =
      (st, Inl (ValueError, Literal ''New phone number must contain 10 digits''))"
    using edit_phone_malformed[of st old p s] by blast
next
  assume a: "find_phone st old = Some p \<and> length s = 10 \<and> list_all isdigit_cp s"
  then have f: "find_ref (fst st) (phones (snd st)) old = Some p"
    by (simp add: find_phone_def)
  from find_ref_Some[OF f] have m: "p \<in> set (phones (snd st))" "fst st ! p = old" by simp_all
  from assms m(1) have r: "p < length (fst st)"
    by (simp add: refs_ok_def list_all_iff)
  from assms have ra: "list_all (\<lambda>q. q < length (fst st)) (phones (snd st))"
    by (simp add: refs_ok_def)
  have u: "find_phone ((fst st)[p := PyStr s], snd st) (PyStr s) =
      (case find_ref (fst st) (takeWhile (\<lambda>q. q \<noteq> p) (phones (snd st))) (PyStr s) of
         None \<Rightarrow> Some p
       | Some q \<Rightarrow> Some q)"
    using find_ref_after_update[OF f ra, of "PyStr s"] by (simp add: find_phone_def)
  show "edit_phone st old (PyStr s) = (((fst st)[p := PyStr s], snd st), Inr ())"
    using a edit_phone_valid[of st old p s] by blast
  show "p \<in> set (phones (snd st))" by (rule m(1))
  show "fst st ! p = old" by (rule m(2))
  show "length ((fst st)[p := PyStr s]) = length (fst st)" by simp
  show "(fst st)[p := PyStr s] ! p = PyStr s" using r by simp
  show "\<forall>q. q \<noteq> p \<longrightarrow> (fst st)[p := PyStr s] ! q = fst st ! q" by simp
  show "find_phone ((fst st)[p := PyStr s], snd st) (PyStr s) =
      (case find_ref (fst st) (takeWhile (\<lambda>q. q \<noteq> p) (phones (snd st))) (PyStr s) of
         None \<Rightarrow> Some p
       | Some q \<Rightarrow> Some q)"
    by (rule u)
  from u obtain q where q: "find_phone ((fst st)[p := PyStr s], snd st) (PyStr s) = Some q"
    by (cases "find_ref (fst st) (takeWhile (\<lambda>q. q \<noteq> p) (phones (snd st))) (PyStr s)") auto
  then have "(fst st)[p := PyStr s] ! q = PyStr s"
    using find_ref_Some[of "(fst st)[p := PyStr s]" "phones (snd st)" "PyStr s" q]
    by (simp add: find_phone_def)
  with q show "\<exists>q. find_phone ((fst st)[p := PyStr s], snd st) (PyStr s) = Some q \<and>
      (fst st)[p := PyStr s] ! q = PyStr s"
    by blast
qed

text \<open>
  A record with the phone \<open>1111111111\<close>: editing it to \<open>2222222222\<close> succeeds, and
  \<open>find_phone\<close> then returns the same object; editing \<open>9999999999\<close> is not found.
\<close>

theorem edit_phone_behaviour_witness:
  "refs_ok ([PyStr (ustr ''1111111111'')], (contact ''Ann'' None)\<lparr>phones := [0]\<rparr>) \<and>
   find_phone ([PyStr (ustr ''1111111111'')], (contact ''Ann'' None)\<lparr>phones := [0]\<rparr>)
     (PyStr (ustr ''1111111111'')) = Some 0 \<and>
   edit_phone ([PyStr (ustr ''1111111111'')], (contact ''Ann'' None)\<lparr>phones := [0]\<rparr>)
     (PyStr (ustr ''1111111111'')) (PyStr (ustr ''2222222222'')) =
     (([PyStr (ustr ''2222222222'')], (contact ''Ann'' None)\<lparr>phones := [0]\<rparr>), Inr ()) \<and>
   find_phone ([PyStr (ustr ''2222222222'')], (contact ''Ann'' None)\<lparr>phones := [0]\<rparr>)
     (PyStr (ustr ''2222222222'')) = Some 0 \<and>
   edit_phone ([PyStr (ustr ''1111111111'')], (contact ''Ann'' None)\<lparr>phones := [0]\<rparr>)
     (PyStr (ustr ''9999999999'')) (PyStr (ustr ''2222222222'')) =
     (([PyStr (ustr ''1111111111'')], (contact ''Ann'' None)\<lparr>phones := [0]\<rparr>),
      Inl (ValueError, Literal ''Phone number not found.''))"
proof -
  let ?st = "([PyStr (ustr ''1111111111'')], (contact ''Ann'' None)\<lparr>phones := [0]\<rparr>)"
  have ok: "refs_ok ?st" by (simp add: record_eval)
  have f1: "find_phone ?st (PyStr (ustr ''1111111111'')) = Some 0"
    by (simp add: record_eval)
  have f9: "find_phone ?st (PyStr (ustr ''9999999999'')) = None"
    by (simp add: record_eval ustr_def)
  have v: "length (ustr ''2222222222'') = 10 \<and> list_all isdigit_cp (ustr ''2222222222'')"
    by (simp add: ustr_def isdigit_cp_def isdecimal_cp_def decimal_ranges_def)
  from edit_phone_behaviour[OF ok, of "PyStr (ustr ''1111111111'')" "PyStr (ustr ''2222222222'')" 0 "ustr ''2222222222''"] f1 v
  have e: "edit_phone ?st (PyStr (ustr ''1111111111'')) (PyStr (ustr ''2222222222'')) =
      (((fst ?st)[0 := PyStr (ustr ''2222222222'')], snd ?st), Inr ())"
    and g: "find_phone ((fst ?st)[0 := PyStr (ustr ''2222222222'')], snd ?st) (PyStr (ustr ''2222222222'')) =
      (case find_ref (fst ?st) (takeWhile (\<lambda>q. q \<noteq> 0) (phones (snd ?st))) (PyStr (ustr ''2222222222'')) of
         None \<Rightarrow> Some 0
       | Some q \<Rightarrow> Some q)"
    by blast+
  from edit_phone_behaviour[OF ok, of "PyStr (ustr ''9999999999'')" "PyStr (ustr ''2222222222'')" 0 "[]"] f9
  have n: "edit_phone ?st (PyStr (ustr ''9999999999'')) (PyStr (ustr ''2222222222'')) =
      (?st, Inl (ValueError, Literal ''Phone number not found.''))"
    by blast
  from e have e': "edit_phone ?st (PyStr (ustr ''1111111111'')) (PyStr (ustr ''2222222222'')) =
      (([PyStr (ustr ''2222222222'')], (contact ''Ann'' None)\<lparr>phones := [0]\<rparr>), Inr ())"
    by simp
  from g have g': "find_phone ([PyStr (ustr ''2222222222'')], (contact ''Ann'' None)\<lparr>phones := [0]\<rparr>)
     (PyStr (ustr ''2222222222'')) = Some 0"
    by (simp add: contact_def)
  from ok f1 e' g' n show ?thesis by blast
qed

text \<open>
  The claim as stated, that \<open>find_phone\<close> of the new value returns the edited phone,
  fails on a record that already has the new value: with the phones \<open>2222222222\<close>
  (object 0) and \<open>1111111111\<close> (object 1), editing \<open>1111111111\<close> to \<open>2222222222\<close>
  changes object 1, and \<open>find_phone\<close> of \<open>2222222222\<close> returns object 0.
\<close>

theorem edit_phone_returns_edited_slot_counterexample:
  "find_phone ([PyStr (ustr ''2222222222''), PyStr (ustr ''1111111111'')],
       (contact ''Ann'' None)\<lparr>phones := [0, 1]\<rparr>) (PyStr (ustr ''1111111111'')) = Some 1 \<and>
   edit_phone ([PyStr (ustr ''2222222222''), PyStr (ustr ''1111111111'')],
       (contact ''Ann'' None)\<lparr>phones := [0, 1]\<rparr>) (PyStr (ustr ''1111111111'')) (PyStr (ustr ''2222222222'')) =
     (([PyStr (ustr ''2222222222''), PyStr (ustr ''2222222222'')],
       (contact ''Ann'' None)\<lparr>phones := [0, 1]\<rparr>), Inr ()) \<and>
   find_phone ([PyStr (ustr ''2222222222''), PyStr (ustr ''2222222222'')],
       (contact ''Ann'' None)\<lparr>phones := [0, 1]\<rparr>) (PyStr (ustr ''2222222222'')) = Some 0"
  by (simp add: edit_phone_def record_eval not_10_digits_PyStr ustr_def
      isdigit_cp_def isdecimal_cp_def decimal_ranges_def)

subsection \<open>C7: deleting a name that is absent\<close>

text \<open>
  C7. For every directory and every name that is not one of its keys, \<open>delete\<close> raises
  the \<open>ValueError\<close> that the record is not found, and the directory is as it was: the
  same entries in the same order.
\<close>

theorem delete_absent_name:
  assumes "nm \<notin> set (map fst book)"
  shows "delete book nm = (book, Inl (ValueError, RecordNotFound nm))"
  using assms by (simp add: delete_def)

text \<open>
  \<open>Zed\<close> is not in the directory of the example.
\<close>

theorem delete_absent_name_witness:
  "PyStr (ustr ''Zed'') \<notin> set (map fst june_book) \<and>
   delete june_book (PyStr (ustr ''Zed'')) =
     (june_book, Inl (ValueError, RecordNotFound (PyStr (ustr ''Zed''))))"
proof -
  have a: "PyStr (ustr ''Zed'') \<notin> set (map fst june_book)"
    by (simp add: june_book_def ustr_def)
  from delete_absent_name[OF a] a show ?thesis by blast
qed

subsection \<open>C8: a validation that fails changes nothing\<close>

text \<open>
  C8. Whenever the validation of a field fails, the exception reaches the caller and the
  heap and the record are as before: \<open>add_phone\<close> with a value that \<open>Phone\<close> rejects,
  \<open>add_birthday\<close> with a value that \<open>Birthday\<close> rejects, \<open>edit_phone\<close> in every
  case in which it raises, and the constructor of \<open>Record\<close> with a name that \<open>Name\<close>
  rejects, which builds no record. In particular \<open>add_phone\<close> on a string that is not
  ten digits leaves the list of phones, and \<open>add_birthday\<close> on a string that does not
  parse leaves the birthday. These methods take the record only, so the directory that
  holds the record is unchanged with it.
\<close>

theorem validation_failure_leaves_state:
  "(Phone phone = Inl e \<longrightarrow> add_phone st phone = (st, Inl e)) \<and>
   (Birthday b_day = Inl e \<longrightarrow> add_birthday st b_day = (st, Inl e)) \<and>
   (snd (edit_phone st old new) = Inl e \<longrightarrow> fst (edit_phone st old new) = st) \<and>
   (Name nm = Inl e \<longrightarrow> Record_init nm = Inl e) \<and>
   (\<not> (length s = 10 \<and> list_all isdigit_cp s) \<longrightarrow>
      add_phone st (PyStr s) = (st, Inl (ValueError, Literal ''Phone number must contain 10 digits''))) \<and>
   (strptime_str s = Inl e' \<longrightarrow>
      add_birthday st (PyStr s) = (st, Inl (ValueError, Literal ''Invalid date format. Use DD.MM.YYYY'')))"
proof (intro conjI impI)
  assume "Phone phone = Inl e"
  then show "add_phone st phone = (st, Inl e)" by (simp add: add_phone_def)
next
  assume "Birthday b_day = Inl e"
  then show "add_birthday st b_day = (st, Inl e)" by (simp add: add_birthday_def)
next
  assume "snd (edit_phone st old new) = Inl e"
  then show "fst (edit_phone st old new) = st" by (rule edit_phone_unchanged_on_error)
next
  assume "Name nm = Inl e"
  then show "Record_init nm = Inl e" by (simp add: Record_init_def)
next
  assume "\<not> (length s = 10 \<and> list_all isdigit_cp s)"
  then show "add_phone st (PyStr s) = (st, Inl (ValueError, Literal ''Phone number must contain 10 digits''))"
    by (simp add: add_phone_def Phone_PyStr)
next
  assume "strptime_str s = Inl e'"
  then show "add_birthday st (PyStr s) = (st, Inl (ValueError, Literal ''Invalid date format. Use DD.MM.YYYY''))"
    by (simp add: add_birthday_def Birthday_PyStr)
qed

text \<open>
  A record with a phone and a birthday: the phone \<open>12ab\<close> and the birthday
  \<open>31.04.2020\<close> are rejected and leave the state as it was; the empty name is rejected.
\<close>

theorem validation_failure_leaves_state_witness:
  "\<not> (length (ustr ''12ab'') = 10 \<and> list_all isdigit_cp (ustr ''12ab'')) \<and>
   add_phone ([PyStr (ustr ''1111111111'')], (contact ''Ann'' (Some ''12.06.1990''))\<lparr>phones := [0]\<rparr>)
     (PyStr (ustr ''12ab'')) =
     (([PyStr (ustr ''1111111111'')], (contact ''Ann'' (Some ''12.06.1990''))\<lparr>phones := [0]\<rparr>),
      Inl (ValueError, Literal ''Phone number must contain 10 digits'')) \<and>
   strptime_str (ustr ''31.04.2020'') = Inl (ValueError, Library) \<and>
   add_birthday ([PyStr (ustr ''1111111111'')], (contact ''Ann'' (Some ''12.06.1990''))\<lparr>phones := [0]\<rparr>)
     (PyStr (ustr ''31.04.2020'')) =
     (([PyStr (ustr ''1111111111'')], (contact ''Ann'' (Some ''12.06.1990''))\<lparr>phones := [0]\<rparr>),
      Inl (ValueError, Literal ''Invalid date format. Use DD.MM.YYYY'')) \<and>
   Name (PyStr []) = Inl (ValueError, Literal ''Name cannot be empty'') \<and>
   Record_init (PyStr []) = Inl (ValueError, Literal ''Name cannot be empty'')"
proof -
  let ?st = "([PyStr (ustr ''1111111111'')], (contact ''Ann'' (Some ''12.06.1990''))\<lparr>phones := [0]\<rparr>)"
  have a: "\<not> (length (ustr ''12ab'') = 10 \<and> list_all isdigit_cp (ustr ''12ab''))"
    by (simp add: ustr_def)
  have b: "strptime_str (ustr ''31.04.2020'') = Inl (ValueError, Library)"
    by (simp add: parse_eval date_eval)
  have c: "Name (PyStr []) = Inl (ValueError, Literal ''Name cannot be empty'')"
    by (simp add: Name_def)
  note t = validation_failure_leaves_state[of "PyNone" "(ValueError, Literal ''Name cannot be empty'')" ?st
      PyNone PyNone PyNone "PyStr []" _ "(ValueError, Library)"]
  from t[of "ustr ''12ab''"] a have 1: "add_phone ?st (PyStr (ustr ''12ab'')) =
      (?st, Inl (ValueError, Literal ''Phone number must contain 10 digits''))"
    by blast
  from t[of "ustr ''31.04.2020''"] b have 2: "add_birthday ?st (PyStr (ustr ''31.04.2020'')) =
      (?st, Inl (ValueError, Literal ''Invalid date format. Use DD.MM.YYYY''))"
    by blast
  from t[of "[]"] c have 3: "Record_init (PyStr []) = Inl (ValueError, Literal ''Name cannot be empty'')"
    by blast
  from a b c 1 2 3 show ?thesis by blast
qed

subsection \<open>C9: adding a record\<close>

text \<open>
  C9. After \<open>add_record\<close> the directory maps the name of the record to that record,
  whatever was stored under the name before, every other name is mapped as before, and a
  name still occurs once among the keys.
\<close>

theorem add_record_overwrites:
  "find_record (add_record book r) (name r) = Some r \<and>
   (k \<noteq> name r \<longrightarrow> find_record (add_record book r) k = find_record book k) \<and>
   (distinct (map fst book) \<longrightarrow> distinct (map fst (add_record book r)))"
  using add_record_find[of book r] add_record_other[of k r book] add_record_distinct[of book r]
  by blast

text \<open>
  Adding a record named \<open>Bob\<close> to the directory of the example, which has a \<open>Bob\<close>.
\<close>

theorem add_record_overwrites_witness:
  "PyStr (ustr ''Ann'') \<noteq> name (contact ''Bob'' (Some ''05.05.1995'')) \<and>
   distinct (map fst june_book) \<and>
   find_record june_book (PyStr (ustr ''Bob'')) = Some (contact ''Bob'' (Some ''01.01.1990'')) \<and>
   find_record (add_record june_book (contact ''Bob'' (Some ''05.05.1995''))) (PyStr (ustr ''Bob'')) =
     Some (contact ''Bob'' (Some ''05.05.1995'')) \<and>
   find_record (add_record june_book (contact ''Bob'' (Some ''05.05.1995''))) (PyStr (ustr ''Ann'')) =
     Some (contact ''Ann'' (Some ''12.06.1990'')) \<and>
   distinct (map fst (add_record june_book (contact ''Bob'' (Some ''05.05.1995''))))"
proof -
  have a: "PyStr (ustr ''Ann'') \<noteq> name (contact ''Bob'' (Some ''05.05.1995''))"
    by (simp add: contact_def ustr_def)
  have d: "distinct (map fst june_book)"
    by (simp add: june_book_def ustr_def)
  have b: "find_record june_book (PyStr (ustr ''Bob'')) = Some (contact ''Bob'' (Some ''01.01.1990''))"
    by (simp add: find_record_def june_book_def ustr_def)
  have n: "name (contact ''Bob'' (Some ''05.05.1995'')) = PyStr (ustr ''Bob'')"
    by (simp add: contact_def)
  have f: "find_record june_book (PyStr (ustr ''Ann'')) = Some (contact ''Ann'' (Some ''12.06.1990''))"
    by (simp add: find_record_def june_book_def ustr_def)
  from add_record_overwrites[of june_book "contact ''Bob'' (Some ''05.05.1995'')" "PyStr (ustr ''Ann'')"] a d n f
  have "find_record (add_record june_book (contact ''Bob'' (Some ''05.05.1995''))) (PyStr (ustr ''Bob'')) =
     Some (contact ''Bob'' (Some ''05.05.1995''))"
    "find_record (add_record june_book (contact ''Bob'' (Some ''05.05.1995''))) (PyStr (ustr ''Ann'')) =
     Some (contact ''Ann'' (Some ''12.06.1990''))"
    "distinct (map fst (add_record june_book (contact ''Bob'' (Some ''05.05.1995''))))"
    by auto
  with a d b show ?thesis by blast
qed

subsection \<open>C10: no wrap across the end of the year\<close>

text \<open>
  C10. A record whose birthday has a month and day before those of \<open>today\<close> is not
  reported, however close its next occurrence is: its candidate date is in the year of
  \<open>today\<close>, so \<open>delta\<close> is negative, and the report of a directory that holds the record
  is the report of the directory without it.
\<close>

theorem no_wrap_across_year:
  assumes "valid_date today" and "before_today today u"
  shows "(\<forall>c. candidate today u = Some c \<longrightarrow> year c = year today \<and> delta today c < 0) \<and>
         (get_upcoming_birthdays today (book1 @ (k, u) # book2) = Inr res \<longrightarrow>
            get_upcoming_birthdays today (book1 @ book2) = Inr res)"
proof (intro conjI allI impI)
  fix c
  assume c: "candidate today u = Some c"
  from candidate_SomeD[OF c] obtain b parsed where
    p: "birthday u = Some b" "strptime b = Inr parsed" "valid_date c" "year c = year today"
      "month c = month parsed" "day c = day parsed"
    by blast
  with assms(2) have "month c < month today \<or> (month c = month today \<and> day c < day today)"
    by (simp add: before_today_def)
  from before_today_earlier[OF assms(1) p(3,4) this]
  show "delta today c < 0" by (simp add: delta_def)
  show "year c = year today" by (rule p(4))
next
  assume "get_upcoming_birthdays today (book1 @ (k, u) # book2) = Inr res"
  then show "get_upcoming_birthdays today (book1 @ book2) = Inr res"
    using upcoming_loop_remove[OF assms, of "map snd book1" "map snd book2" "[]" res]
    by (simp add: get_upcoming_birthdays_def)
qed

text \<open>
  On the 30th of December 2024 the birthday 02.01. is three days ahead in the calendar;
  its candidate is the 2nd of January 2024, 363 days back, and only Kim (31.12.) is
  reported.
\<close>

theorem no_wrap_across_year_witness:
  "valid_date \<lparr>year = 2024, month = 12, day = 30\<rparr> \<and>
   before_today \<lparr>year = 2024, month = 12, day = 30\<rparr> (contact ''Jan'' (Some ''02.01.1990'')) \<and>
   candidate \<lparr>year = 2024, month = 12, day = 30\<rparr> (contact ''Jan'' (Some ''02.01.1990'')) =
     Some \<lparr>year = 2024, month = 1, day = 2\<rparr> \<and>
   delta \<lparr>year = 2024, month = 12, day = 30\<rparr> \<lparr>year = 2024, month = 1, day = 2\<rparr> = - 363 \<and>
   get_upcoming_birthdays \<lparr>year = 2024, month = 12, day = 30\<rparr>
     [(PyStr (ustr ''Kim''), contact ''Kim'' (Some ''31.12.1980'')),
      (PyStr (ustr ''Jan''), contact ''Jan'' (Some ''02.01.1990''))] =
     Inr [\<lparr>entry_name = PyStr (ustr ''Kim''), entry_birthday = ustr ''31.12.2024''\<rparr>] \<and>
   get_upcoming_birthdays \<lparr>year = 2024, month = 12, day = 30\<rparr>
     [(PyStr (ustr ''Kim''), contact ''Kim'' (Some ''31.12.1980''))] =
     Inr [\<lparr>entry_name = PyStr (ustr ''Kim''), entry_birthday = ustr ''31.12.2024''\<rparr>]"
proof -
  let ?t = "\<lparr>year = 2024, month = 12, day = 30\<rparr>"
  let ?jan = "contact ''Jan'' (Some ''02.01.1990'')"
  let ?kim = "(PyStr (ustr ''Kim''), contact ''Kim'' (Some ''31.12.1980''))"
  have v: "valid_date ?t" by (simp add: date_eval)
  have b: "before_today ?t ?jan" by (simp add: book_eval parse_eval date_eval)
  have c: "candidate ?t ?jan = Some \<lparr>year = 2024, month = 1, day = 2\<rparr>"
    by (simp add: book_eval parse_eval date_eval)
  have r: "get_upcoming_birthdays ?t ([?kim] @ (PyStr (ustr ''Jan''), ?jan) # []) =
     Inr [\<lparr>entry_name = PyStr (ustr ''Kim''), entry_birthday = ustr ''31.12.2024''\<rparr>]"
    by (simp add: get_upcoming_birthdays_def book_eval parse_eval date_eval strftime_def
        zero_pad2_def decimal.simps)
  note t = no_wrap_across_year[OF v b, of "[?kim]" "PyStr (ustr ''Jan'')" "[]"
      "[\<lparr>entry_name = PyStr (ustr ''Kim''), entry_birthday = ustr ''31.12.2024''\<rparr>]"]
  from t c have d: "delta ?t \<lparr>year = 2024, month = 1, day = 2\<rparr> < 0" by blast
  have d': "delta ?t \<lparr>year = 2024, month = 1, day = 2\<rparr> = - 363"
    by (simp add: delta_def date_eval)
  from t r have "get_upcoming_birthdays ?t ([?kim] @ []) =
     Inr [\<lparr>entry_name = PyStr (ustr ''Kim''), entry_birthday = ustr ''31.12.2024''\<rparr>]"
    by blast
  with v b c d' r show ?thesis by simp
qed

end
